theory Spec2Isabelle
  imports Main
begin

section \<open>Machine arithmetic of the Go program\<close>

text \<open>
  The scheduler is written in Go. \<open>int\<close>, \<open>int64\<close> and \<open>time.Duration\<close> are 64-bit
  two's complement integers (a 64-bit platform is assumed for \<open>int\<close>); \<open>+\<close> and \<open>*\<close>
  wrap around silently. They are modelled as HOL integers with the wrap-around written
  out by \<open>wrap64\<close>.
\<close>

type_synonym duration = int

definition MaxDuration :: duration where
  "MaxDuration = 9223372036854775807"

definition MinDuration :: duration where
  "MinDuration = - 9223372036854775808"

definition wrap64 :: "int \<Rightarrow> int" where
  "wrap64 x = (x + 9223372036854775808) mod 18446744073709551616 - 9223372036854775808"

definition add64 :: "int \<Rightarrow> int \<Rightarrow> int" where
  "add64 a b = wrap64 (a + b)"

definition sub64 :: "int \<Rightarrow> int \<Rightarrow> int" where
  "sub64 a b = wrap64 (a - b)"

definition mul64 :: "int \<Rightarrow> int \<Rightarrow> int" where
  "mul64 a b = wrap64 (a * b)"

text \<open>The constants of package \<open>time\<close>, in nanoseconds.\<close>

definition Millisecond :: duration where
  "Millisecond = 1000000"

definition Second :: duration where
  "Second = 1000000000"

definition Minute :: duration where
  "Minute = 60000000000"

definition Hour :: duration where
  "Hour = 3600000000000"

subsection \<open>float64\<close>

text \<open>
  The program takes every remainder through \<open>math.Mod\<close> on \<open>float64\<close>. All floats
  that occur are integer valued, so a float is represented by the integer it denotes.
  \<open>float64 x\<close> is the conversion of a 64-bit integer: exact up to 53 bits, rounded to
  the nearest representable value (ties to even) beyond.
  \<open>math_Mod x y\<close> is the floating-point remainder, exact, with the sign of \<open>x\<close>.
\<close>

function bitlen :: "int \<Rightarrow> nat" where
  "bitlen k = (if k \<le> 0 then 0 else Suc (bitlen (k div 2)))"
  by pat_completeness auto
termination
  by (relation "measure nat") auto

declare bitlen.simps [simp del]

definition float64 :: "int \<Rightarrow> int" where
  "float64 x =
     (if \<bar>x\<bar> \<le> 9007199254740992 then x
      else (let e = bitlen \<bar>x\<bar> - 53;
                q = \<bar>x\<bar> div 2 ^ e;
                r = \<bar>x\<bar> mod 2 ^ e;
                h = 2 ^ (e - 1);
                m = (if r < h then q else if h < r then q + 1
                     else if even q then q else q + 1)
            in sgn x * m * 2 ^ e))"

definition math_Mod :: "int \<Rightarrow> int \<Rightarrow> int" where
  "math_Mod x y = sgn x * (\<bar>x\<bar> mod \<bar>y\<bar>)"

section \<open>Library functions the resolver calls\<close>

subsection \<open>strconv.ParseInt(val, 10, 64)\<close>

text \<open>
  An optional sign, then decimal digits only. A syntax error gives the value 0, a
  value out of range gives the nearest bound; both set the error flag, which the
  program drops.
\<close>

definition is_digit :: "char \<Rightarrow> bool" where
  "is_digit c = (48 \<le> (of_char c :: nat) \<and> (of_char c :: nat) \<le> 57)"

definition digit_val :: "char \<Rightarrow> int" where
  "digit_val c = int (of_char c) - 48"

fun leading_value :: "int \<Rightarrow> string \<Rightarrow> int" where
  "leading_value acc [] = acc"
| "leading_value acc (c # cs) = leading_value (acc * 10 + digit_val c) cs"

definition ParseInt :: "string \<Rightarrow> int \<times> bool" where
  "ParseInt s =
     (let neg = (s \<noteq> [] \<and> hd s = CHR ''-'');
          body = (if s \<noteq> [] \<and> (hd s = CHR ''-'' \<or> hd s = CHR ''+'') then tl s else s)
      in if body = [] \<or> \<not> list_all is_digit body then (0, False)
         else (let v = leading_value 0 body
               in if neg then (if 9223372036854775808 < v then (MinDuration, False) else (- v, True))
                  else (if 9223372036854775808 \<le> v then (MaxDuration, False) else (v, True))))"

subsection \<open>The regular expression of the clock-time pattern\<close>

text \<open>
  \<open>([\d|\*]{2}):([\d|\*]\d)\<close>: inside the brackets the bar is a literal character, so
  the class holds the digits, the star and the bar. The pattern has a fixed length of
  five bytes, so the leftmost match is the first position where five bytes fit.
  \<open>FindSubmatch\<close> returns the two groups of the first match, which is all of
  \<open>FindAllStringSubmatch\<close> that the program reads.
\<close>

definition in_class :: "char \<Rightarrow> bool" where
  "in_class c = (is_digit c \<or> c = CHR ''|'' \<or> c = CHR ''*'')"

fun FindSubmatch :: "string \<Rightarrow> (string \<times> string) option" where
  "FindSubmatch (a # b # c # d # e # rest) =
     (if in_class a \<and> in_class b \<and> c = CHR '':'' \<and> in_class d \<and> is_digit e
      then Some ([a, b], [d, e])
      else FindSubmatch (b # c # d # e # rest))"
| "FindSubmatch _ = None"

subsection \<open>time.Time\<close>

text \<open>
  An instant is the number of nanoseconds since 1970-01-01 00:00 (a Thursday) on the
  civil clock of its location, taken to have a fixed offset. \<open>Add\<close> is exact; \<open>Sub\<close>
  saturates at the bounds of \<open>Duration\<close>, as the library documents. The zero
  \<open>Time\<close> is January 1 of year 1.
\<close>

type_synonym time = int

definition Add :: "time \<Rightarrow> duration \<Rightarrow> time" where
  "Add t d = t + d"

definition Sub :: "time \<Rightarrow> time \<Rightarrow> duration" where
  "Sub t u = (if t - u < MinDuration then MinDuration
              else if MaxDuration < t - u then MaxDuration else t - u)"

definition Time_Hour :: "time \<Rightarrow> int" where
  "Time_Hour t = (t div Hour) mod 24"

definition Time_Minute :: "time \<Rightarrow> int" where
  "Time_Minute t = (t div Minute) mod 60"

definition Time_Weekday :: "time \<Rightarrow> int" where
  "Time_Weekday t = (t div (24 * Hour) + 4) mod 7"

definition zero_Time :: time where
  "zero_Time = - 62135596800000000000"

definition IsZero :: "time \<Rightarrow> bool" where
  "IsZero t = (t = zero_Time)"

section \<open>Package t: the time specification\<close>

definition NoDay :: int where "NoDay = 0"
definition Sun :: int where "Sun = 1"
definition Mon :: int where "Mon = 2"
definition Tue :: int where "Tue = 3"
definition Wed :: int where "Wed = 4"
definition Thu :: int where "Thu = 5"
definition Fri :: int where "Fri = 6"
definition Sat :: int where "Sat = 7"

datatype unit_t = tNone | tMillisecond | tSecond | tMinute | tHour | tDay | tWeek

record every =
  every_t :: unit_t
  every_n :: int

record When =
  LastRun :: time
  Each :: string
  Every :: "every option"
  On :: int
  At :: string

record Opts =
  When :: "When option"
  RetryCount :: int
  Timeout :: duration

text \<open>
  The constructor \<open>Every(n)\<close> is \<open>EveryN\<close> here, the name \<open>Every\<close> being the
  field of \<open>When\<close>. The fields of \<open>every\<close> are not exported, so outside the package
  every value of it comes from \<open>EveryN\<close> and the unit setters.
\<close>

definition EveryN :: "int \<Rightarrow> every" where
  "EveryN k = \<lparr>every_t = tSecond, every_n = (if k < 1 then 1 else k)\<rparr>"

definition Milliseconds :: "every \<Rightarrow> every" where
  "Milliseconds e = e\<lparr>every_t := tMillisecond\<rparr>"

definition Seconds :: "every \<Rightarrow> every" where
  "Seconds e = e\<lparr>every_t := tSecond\<rparr>"

definition Minutes :: "every \<Rightarrow> every" where
  "Minutes e = e\<lparr>every_t := tMinute\<rparr>"

definition Hours :: "every \<Rightarrow> every" where
  "Hours e = e\<lparr>every_t := tHour\<rparr>"

definition Days :: "every \<Rightarrow> every" where
  "Days e = e\<lparr>every_t := tDay\<rparr>"

definition Weeks :: "every \<Rightarrow> every" where
  "Weeks e = e\<lparr>every_t := tWeek\<rparr>"

text \<open>\<open>mod(val, n, m)\<close>: the float remainder of \<open>m + value - n\<close> by \<open>m\<close>.\<close>

definition mod_str :: "string \<Rightarrow> int \<Rightarrow> int \<Rightarrow> int" where
  "mod_str val k m = math_Mod (float64 (sub64 (add64 m (fst (ParseInt val))) k)) (float64 m)"

definition nextAtMatch :: "time \<Rightarrow> string \<Rightarrow> duration" where
  "nextAtMatch start at =
     (case FindSubmatch at of
        None \<Rightarrow> 0
      | Some (hour, minute) \<Rightarrow>
          (let diff1 = (if hour \<noteq> ''**''
                        then add64 0 (mul64 Hour (mod_str hour (Time_Hour start) 24))
                        else 0)
           in if hd minute = CHR ''*''
              then (let l = math_Mod (float64 (Time_Minute start)) 10;
                        d = mod_str [minute ! 1] l 10
                    in add64 diff1 (mul64 Minute d))
              else add64 diff1 (mul64 Minute (mod_str minute (Time_Minute start) 60))))"

definition nextDayMatch :: "time \<Rightarrow> int \<Rightarrow> duration" where
  "nextDayMatch start day =
     mul64 (mul64 (math_Mod (float64 (sub64 (add64 7 (sub64 day 1)) (Time_Weekday start))) 7) 24) Hour"

definition nextDayAndAtMatch :: "time \<Rightarrow> int \<Rightarrow> string \<Rightarrow> duration" where
  "nextDayAndAtMatch start day at =
     (if day \<noteq> NoDay then nextAtMatch (Add start (nextDayMatch start day)) at
      else nextAtMatch start at)"

text \<open>
  \<open>time.ParseDuration\<close> belongs to the standard library and its result on a string
  depends on the library version; the resolver is parametric in it. \<open>pd s\<close> is the
  duration it returns for \<open>s\<close> (0 where it reports an error, which the program drops).
\<close>

definition Duration :: "(string \<Rightarrow> duration) \<Rightarrow> When \<Rightarrow> time \<Rightarrow> duration" where
  "Duration pd w start =
     (if Each w \<noteq> [] then pd (Each w)
      else case Every w of
        None \<Rightarrow> nextDayAndAtMatch start (On w) (At w)
      | Some e \<Rightarrow>
          (case every_t e of
             tMillisecond \<Rightarrow> mul64 (every_n e) Millisecond
           | tSecond \<Rightarrow> mul64 (every_n e) Second
           | tMinute \<Rightarrow> mul64 (every_n e) Minute
           | tHour \<Rightarrow> add64 (mul64 (every_n e) Hour) (nextAtMatch start (At w))
           | tDay \<Rightarrow> add64 (mul64 (mul64 (every_n e) 24) Hour) (nextAtMatch start (At w))
           | tWeek \<Rightarrow>
               (let weekdayDiff =
                      (if On w \<noteq> NoDay
                       then math_Mod (float64 (sub64 (sub64 (add64 7 (On w)) 1) (Time_Weekday start))) 7
                       else 0)
                in add64 (mul64 (mul64 (add64 (mul64 (every_n e) 7) weekdayDiff) 24) Hour)
                         (nextAtMatch start (At w)))
           | tNone \<Rightarrow> 0))"

text \<open>
  \<open>Next\<close> reads the wall clock once in every round of its loop: \<open>clock i\<close> is the
  \<open>i\<close>-th reading. The loop has no bound, so \<open>None\<close> stands for a call that never
  returns.
\<close>

partial_function (option) Next_loop ::
    "(string \<Rightarrow> duration) \<Rightarrow> When \<Rightarrow> time \<Rightarrow> (nat \<Rightarrow> time) \<Rightarrow> nat \<Rightarrow> duration \<Rightarrow> duration option" where
  "Next_loop pd w start clock i interval =
     (if 0 < Sub (Add start interval) (clock i)
      then Some (Sub (Add start interval) (clock i))
      else Next_loop pd w start clock (Suc i)
             (add64 interval (Duration pd w (Add start interval))))"

definition Next :: "(string \<Rightarrow> duration) \<Rightarrow> When \<Rightarrow> time \<Rightarrow> (nat \<Rightarrow> time) \<Rightarrow> duration option" where
  "Next pd w start clock = Next_loop pd w start clock 0 (Duration pd w start)"

section \<open>The scheduler\<close>

text \<open>
  A job is any value with a \<open>Run\<close> method; \<open>Run\<close> may change the job and reports an
  error or \<open>nil\<close>. The method is passed as a function from the job's state to the
  error (if any) and the new state.
\<close>

type_synonym error = string

datatype 'a outcome = Returned 'a | Panicked

text \<open>
  A \<open>*time.Timer\<close> made by \<open>time.AfterFunc\<close>: the delay it was armed with, and
  whether \<open>Stop\<close> was called on it.
\<close>

datatype timer = Timer duration bool

fun Stop :: "timer \<Rightarrow> timer" where
  "Stop (Timer d b) = Timer d True"

text \<open>
  \<open>jobC\<close>. The channel \<open>cancelSig\<close> has no buffer, so all that \<open>schedule\<close> can see
  of it is whether a sender is waiting at the moment of the \<open>select\<close>; that is the
  argument \<open>cancelled\<close> of \<open>schedule\<close>. The back pointer \<open>scheduler\<close> is only used to
  reach the wait group, whose counter is passed along instead.
\<close>

record 'j jobC =
  job :: 'j
  retryCount :: int
  when_spec :: When
  forever :: bool
  timer :: "timer option"

record 'j Scheduler =
  jobs :: "string \<rightharpoonup> 'j jobC"
  started :: bool
  wg :: int

text \<open>
  \<open>jobC.run\<close>: the loop \<open>for i := 0; i < j.retryCount+1; i++\<close>. The sum
  \<open>j.retryCount+1\<close> is a machine addition. Inside the loop \<open>i\<close> is below the bound, so
  \<open>i++\<close> cannot overflow. The last argument counts the calls of \<open>Run\<close>; it is not
  in the program and is there to state how often the job was invoked.
\<close>

function run_loop ::
    "('j \<Rightarrow> error option \<times> 'j) \<Rightarrow> int \<Rightarrow> int \<Rightarrow> 'j \<Rightarrow> nat \<Rightarrow> nat \<times> 'j" where
  "run_loop Rn bound i st c =
     (if i < bound
      then (case Rn st of
              (None, st') \<Rightarrow> (Suc c, st')
            | (Some err, st') \<Rightarrow> run_loop Rn bound (i + 1) st' (Suc c))
      else (c, st))"
  by pat_completeness auto
termination
  by (relation "measure (\<lambda>(Rn, bound, i, st, c). nat (bound - i))") auto

declare run_loop.simps [simp del]

definition run :: "('j \<Rightarrow> error option \<times> 'j) \<Rightarrow> 'j jobC \<Rightarrow> nat \<times> 'j jobC" where
  "run Rn j =
     (case run_loop Rn (add64 (retryCount j) 1) 0 (job j) 0 of
        (c, st) \<Rightarrow> (c, j\<lparr>job := st\<rparr>))"

text \<open>\<open>jobC.done\<close>: \<open>wg.Done()\<close>, which panics when the counter would go negative.\<close>

definition done_job :: "'j jobC \<Rightarrow> int \<Rightarrow> ('j jobC \<times> int) outcome option" where
  "done_job j c = (if c - 1 < 0 then Some Panicked else Some (Returned (j, c - 1)))"

text \<open>
  \<open>jobC.schedule\<close>, up to the call of \<open>time.AfterFunc\<close>. The result is the entry and
  the wait group's counter; \<open>None\<close> when \<open>Next\<close> never returns. With a cancellation
  waiting and no timer yet, \<open>j.timer.Stop()\<close> dereferences \<open>nil\<close>.
\<close>

definition schedule ::
    "(string \<Rightarrow> duration) \<Rightarrow> bool \<Rightarrow> (nat \<Rightarrow> time) \<Rightarrow> 'j jobC \<Rightarrow> int
      \<Rightarrow> ('j jobC \<times> int) outcome option" where
  "schedule pd cancelled clock j c =
     (if cancelled
      then (case timer j of
              None \<Rightarrow> Some Panicked
            | Some tm \<Rightarrow> done_job (j\<lparr>timer := Some (Stop tm)\<rparr>) c)
      else (let zero = IsZero (LastRun (when_spec j));
                w = (if zero then (when_spec j)\<lparr>LastRun := clock 0\<rparr> else when_spec j);
                clock' = (if zero then (\<lambda>i. clock (Suc i)) else clock)
            in case Next pd w (LastRun w) clock' of
                 None \<Rightarrow> None
               | Some dur \<Rightarrow>
                   Some (Returned (j\<lparr>when_spec := w, timer := Some (Timer dur False)\<rparr>, c))))"

text \<open>
  The function that \<open>schedule\<close> hands to \<open>time.AfterFunc\<close>, run when the timer
  fires: \<open>now\<close> is the clock reading stored in \<open>LastRun\<close> after the run.
\<close>

definition after_run :: "('j \<Rightarrow> error option \<times> 'j) \<Rightarrow> time \<Rightarrow> 'j jobC \<Rightarrow> 'j jobC" where
  "after_run Rn now j = (snd (run Rn j))\<lparr>when_spec := (when_spec j)\<lparr>LastRun := now\<rparr>\<rparr>"

definition callback ::
    "(string \<Rightarrow> duration) \<Rightarrow> ('j \<Rightarrow> error option \<times> 'j) \<Rightarrow> time \<Rightarrow> bool \<Rightarrow> (nat \<Rightarrow> time)
      \<Rightarrow> 'j jobC \<Rightarrow> int \<Rightarrow> ('j jobC \<times> int) outcome option" where
  "callback pd Rn now cancelled clock j c =
     (if forever (after_run Rn now j)
      then schedule pd cancelled clock (after_run Rn now j) c
      else done_job (after_run Rn now j) c)"

text \<open>
  \<open>Scheduler.ScheduleWithOpts\<close>, under the scheduler's lock. \<open>opts\<close> is a pointer:
  \<open>None\<close> is \<open>nil\<close>, which \<open>opts.When\<close> dereferences. \<open>now\<close> is the clock reading
  of the validity check, \<open>clock\<close> the readings taken while arming. The entry is new
  and the lock is held, so no cancellation can be waiting on its channel.
\<close>

definition ScheduleWithOpts ::
    "(string \<Rightarrow> duration) \<Rightarrow> string \<Rightarrow> 'j \<Rightarrow> Opts option \<Rightarrow> time \<Rightarrow> (nat \<Rightarrow> time)
      \<Rightarrow> 'j Scheduler \<Rightarrow> (error option \<times> 'j Scheduler) outcome option" where
  "ScheduleWithOpts pd name jb opts now clock s =
     (if jobs s name \<noteq> None
      then Some (Returned (Some ''a job already exists with the name provided'', s))
      else case opts of
        None \<Rightarrow> Some Panicked
      | Some op \<Rightarrow>
          (case When op of
             None \<Rightarrow> Some (Returned (Some ''not a valid opts.When is provided'', s))
           | Some w \<Rightarrow>
               (if Duration pd w now = 0
                then Some (Returned (Some ''not a valid opts.When is provided'', s))
                else (let j = \<lparr>job = jb, retryCount = RetryCount op, when_spec = w,
                               forever = (Every w \<noteq> None), timer = None\<rparr>;
                          s1 = s\<lparr>jobs := (jobs s)(name \<mapsto> j)\<rparr>
                      in if started s1
                         then (case schedule pd False clock j (wg s1 + 1) of
                                 None \<Rightarrow> None
                               | Some Panicked \<Rightarrow> Some Panicked
                               | Some (Returned (j', c)) \<Rightarrow>
                                   Some (Returned
                                     (None, s1\<lparr>jobs := (jobs s1)(name \<mapsto> j'), wg := c\<rparr>)))
                         else Some (Returned (None, s1))))))"

section \<open>Notions used to state the properties\<close>

text \<open>
  The number written in a two-character part of the clock-time pattern: its decimal
  value when both characters are digits. A part with a star or a bar beside a digit is
  not a number; \<open>ParseInt\<close> fails on it and the program goes on with 0.
\<close>

definition pattern_number :: "string \<Rightarrow> int" where
  "pattern_number s = (if list_all is_digit s then leading_value 0 s else 0)"

definition hour_delta :: "time \<Rightarrow> string \<Rightarrow> int" where
  "hour_delta start hour =
     (if hour = ''**'' then 0 else (pattern_number hour - Time_Hour start) mod 24)"

definition minute_delta :: "time \<Rightarrow> string \<Rightarrow> int" where
  "minute_delta start minute =
     (if hd minute = CHR ''*'' then (digit_val (minute ! 1) - Time_Minute start mod 10) mod 10
      else (pattern_number minute - Time_Minute start) mod 60)"

text \<open>
  An invariant \<open>I\<close> of the interval under which the loop of \<open>Next\<close> never
  leaves: the candidate instant is never after the clock, and a round keeps \<open>I\<close>.
\<close>

definition stays_late ::
    "(int \<Rightarrow> bool) \<Rightarrow> (string \<Rightarrow> duration) \<Rightarrow> When \<Rightarrow> time \<Rightarrow> (nat \<Rightarrow> time) \<Rightarrow> duration \<Rightarrow> bool" where
  "stays_late I pd w start clock interval =
     (I interval \<and> (\<forall>x i. I x \<longrightarrow> Sub (Add start x) (clock i) \<le> 0)
       \<and> (\<forall>x. I x \<longrightarrow> I (add64 x (Duration pd w (Add start x)))))"

text \<open>
  The interval of \<open>Next\<close> on entry to round \<open>k\<close> of its loop: the sum of the
  durations of the steps so far, in machine arithmetic.
\<close>

primrec interval_at :: "(string \<Rightarrow> duration) \<Rightarrow> When \<Rightarrow> time \<Rightarrow> nat \<Rightarrow> duration" where
  "interval_at pd w start 0 = Duration pd w start"
| "interval_at pd w start (Suc k) =
     add64 (interval_at pd w start k) (Duration pd w (Add start (interval_at pd w start k)))"

text \<open>The state of a job before its \<open>m\<close>-th call of \<open>Run\<close> (counting from 0).\<close>

definition state_before :: "('j \<Rightarrow> error option \<times> 'j) \<Rightarrow> 'j \<Rightarrow> nat \<Rightarrow> 'j" where
  "state_before Rn st m = ((\<lambda>x. snd (Rn x)) ^^ m) st"

text \<open>
  What \<open>k\<close> calls of \<open>Run\<close> from the state \<open>st\<close> must satisfy under a limit:
  all calls but the last failed, and if the limit was not reached the last call
  succeeded.
\<close>

definition attempts_ok ::
    "('j \<Rightarrow> error option \<times> 'j) \<Rightarrow> 'j \<Rightarrow> nat \<Rightarrow> nat \<Rightarrow> bool" where
  "attempts_ok Rn st limit k =
     (k \<le> limit
      \<and> (\<forall>m. Suc m < k \<longrightarrow> fst (Rn (state_before Rn st m)) \<noteq> None)
      \<and> (k < limit \<longrightarrow> 0 < k \<and> fst (Rn (state_before Rn st (k - 1))) = None))"

text \<open>
  The shape of a clock-time pattern in words: two characters that are each a digit or a
  star, a colon, a digit or a star, a digit. \<open>has_clock_shape\<close> says that a string
  has a substring of this shape.
\<close>

definition in_shape :: "char \<Rightarrow> bool" where
  "in_shape c = (is_digit c \<or> c = CHR ''*'')"

fun has_clock_shape :: "string \<Rightarrow> bool" where
  "has_clock_shape (a # b # c # d # e # rest) =
     ((in_shape a \<and> in_shape b \<and> c = CHR '':'' \<and> in_shape d \<and> is_digit e)
      \<or> has_clock_shape (b # c # d # e # rest))"
| "has_clock_shape _ = False"

text \<open>The length of a unit of \<open>every\<close>.\<close>

fun unit_length :: "unit_t \<Rightarrow> duration" where
  "unit_length tNone = 0"
| "unit_length tMillisecond = Millisecond"
| "unit_length tSecond = Second"
| "unit_length tMinute = Minute"
| "unit_length tHour = Hour"
| "unit_length tDay = 24 * Hour"
| "unit_length tWeek = 7 * (24 * Hour)"

text \<open>A wall clock that shows the same instant at every reading.\<close>

definition frozen_clock :: "time \<Rightarrow> nat \<Rightarrow> time" where
  "frozen_clock now i = now"

text \<open>
  An instance of the library parser for closed examples: it reads the one duration
  string the examples use, as the library documents it, and reports an error (the
  duration 0) on every other string.
\<close>

definition ParseDuration_5s :: "string \<Rightarrow> duration" where
  "ParseDuration_5s s = (if s = ''-5s'' then - 5 * Second else 0)"

text \<open>A job that counts its calls and never fails.\<close>

definition counting_Run :: "nat \<Rightarrow> error option \<times> nat" where
  "counting_Run k = (None, Suc k)"

text \<open>A job without state whose \<open>Run\<close> fails every time.\<close>

definition failing_Run :: "unit \<Rightarrow> error option \<times> unit" where
  "failing_Run u = (Some ''fake error'', u)"


section \<open>Arithmetic that stays in range\<close>

lemma wrap64_id: "MinDuration \<le> x \<Longrightarrow> x \<le> MaxDuration \<Longrightarrow> wrap64 x = x"
  by (simp add: wrap64_def MinDuration_def MaxDuration_def)

lemma add64_id: "MinDuration \<le> a + b \<Longrightarrow> a + b \<le> MaxDuration \<Longrightarrow> add64 a b = a + b"
  by (simp add: add64_def wrap64_id)

lemma sub64_id: "MinDuration \<le> a - b \<Longrightarrow> a - b \<le> MaxDuration \<Longrightarrow> sub64 a b = a - b"
  by (simp add: sub64_def wrap64_id)

lemma mul64_id: "MinDuration \<le> a * b \<Longrightarrow> a * b \<le> MaxDuration \<Longrightarrow> mul64 a b = a * b"
  by (simp add: mul64_def wrap64_id)

lemma float64_exact: "\<bar>x\<bar> \<le> 9007199254740992 \<Longrightarrow> float64 x = x"
  by (simp add: float64_def)

lemma math_Mod_nonneg: "0 \<le> x \<Longrightarrow> 0 < y \<Longrightarrow> math_Mod x y = x mod y"
  by (cases "x = 0") (simp_all add: math_Mod_def)

lemma Time_Hour_range: "0 \<le> Time_Hour t \<and> Time_Hour t < 24"
  by (simp add: Time_Hour_def)

lemma Time_Minute_range: "0 \<le> Time_Minute t \<and> Time_Minute t < 60"
  by (simp add: Time_Minute_def)

lemma Time_Weekday_range: "0 \<le> Time_Weekday t \<and> Time_Weekday t < 7"
  by (simp add: Time_Weekday_def)

lemma digit_val_range: "is_digit c \<Longrightarrow> 0 \<le> digit_val c \<and> digit_val c \<le> 9"
  by (auto simp: is_digit_def digit_val_def)

lemma in_class_cases: "in_class c \<Longrightarrow> is_digit c \<or> c = CHR ''|'' \<or> c = CHR ''*''"
  by (simp add: in_class_def)

lemma not_digit_bar [simp]: "\<not> is_digit CHR ''|''" "\<not> is_digit CHR ''*''" "\<not> is_digit CHR ''-''" "\<not> is_digit CHR ''+''"
  by (simp_all add: is_digit_def)

lemma ParseInt_class2:
  assumes "in_class a" "in_class b"
  shows "fst (ParseInt [a, b]) = pattern_number [a, b]"
proof -
  have a: "a \<noteq> CHR ''-''" "a \<noteq> CHR ''+''" using assms(1) by (auto simp: in_class_def)
  show ?thesis
  proof (cases "is_digit a \<and> is_digit b")
    case True
    then have "leading_value 0 [a, b] \<le> 99" "0 \<le> leading_value 0 [a, b]"
      using digit_val_range[of a] digit_val_range[of b] by auto
    with True a show ?thesis
      by (simp add: ParseInt_def pattern_number_def Let_def)
  next
    case False
    with a show ?thesis by (auto simp: ParseInt_def pattern_number_def Let_def)
  qed
qed

lemma ParseInt_digit1:
  assumes "is_digit b"
  shows "fst (ParseInt [b]) = digit_val b"
proof -
  have "b \<noteq> CHR ''-''" "b \<noteq> CHR ''+''" using assms by auto
  then show ?thesis using assms digit_val_range[of b] by (simp add: ParseInt_def Let_def)
qed

lemma pattern_number_range: "0 \<le> pattern_number [a, b] \<and> pattern_number [a, b] \<le> 99"
  using digit_val_range[of a] digit_val_range[of b] by (auto simp: pattern_number_def)

lemma mod_str_small:
  assumes "0 \<le> v" "v \<le> 99" "0 \<le> k" "k < m" "m \<le> 60" "fst (ParseInt val) = v"
  shows "mod_str val k m = (v - k) mod m"
proof -
  have r: "0 < m + v - k" "m + v - k \<le> 200" "0 \<le> m + v" "m + v \<le> 200" using assms by auto
  have 1: "add64 m v = m + v" unfolding add64_def using r by (intro wrap64_id) (simp_all add: MinDuration_def MaxDuration_def)
  have 2: "sub64 (m + v) k = m + v - k" unfolding sub64_def using r by (intro wrap64_id) (simp_all add: MinDuration_def MaxDuration_def)
  have 3: "float64 (m + v - k) = m + v - k" using r by (intro float64_exact) simp
  have 4: "float64 m = m" using assms by (intro float64_exact) simp
  have "mod_str val k m = (m + v - k) mod m"
    using r assms by (simp add: mod_str_def 1 2 3 4 math_Mod_nonneg)
  also have "\<dots> = (v - k) mod m"
    by (metis add_diff_eq mod_add_self1)
  finally show ?thesis .
qed

section \<open>The clock-time delta\<close>

lemma FindSubmatch_shape:
  "FindSubmatch at = Some (hour, minute) \<Longrightarrow>
     \<exists>a b d e. hour = [a, b] \<and> minute = [d, e] \<and> in_class a \<and> in_class b \<and> in_class d \<and> is_digit e"
  by (induction at rule: FindSubmatch.induct) (auto split: if_splits)

lemma nextAtMatch_closed:
  assumes "FindSubmatch at = Some (hour, minute)"
  shows "nextAtMatch start at = hour_delta start hour * Hour + minute_delta start minute * Minute"
proof -
  obtain a b d e where sh: "hour = [a, b]" "minute = [d, e]" "in_class a" "in_class b" "in_class d" "is_digit e"
    using FindSubmatch_shape[OF assms] by blast
  have H: "0 \<le> Time_Hour start" "Time_Hour start < 24" using Time_Hour_range by auto
  have M: "0 \<le> Time_Minute start" "Time_Minute start < 60" using Time_Minute_range by auto
  have hm: "mod_str hour (Time_Hour start) 24 = (pattern_number hour - Time_Hour start) mod 24"
    using pattern_number_range[of a b] H sh by (intro mod_str_small) (simp_all add: ParseInt_class2)
  have hd0: "0 \<le> hour_delta start hour" "hour_delta start hour < 24"
    by (simp_all add: hour_delta_def)
  have md0: "0 \<le> minute_delta start minute" "minute_delta start minute < 60"
    by (auto simp: minute_delta_def intro: less_trans[OF pos_mod_bound])
  have d1: "(if hour \<noteq> ''**'' then add64 0 (mul64 Hour (mod_str hour (Time_Hour start) 24)) else 0)
             = hour_delta start hour * Hour"
  proof (cases "hour = ''**''")
    case True then show ?thesis by (simp add: hour_delta_def)
  next
    case False
    have "mul64 Hour (hour_delta start hour) = Hour * hour_delta start hour"
      using hd0 by (intro mul64_id) (simp_all add: Hour_def MinDuration_def MaxDuration_def)
    moreover have "add64 0 (Hour * hour_delta start hour) = Hour * hour_delta start hour"
      using hd0 by (subst add64_id) (simp_all add: Hour_def MinDuration_def MaxDuration_def)
    ultimately show ?thesis using False hm by (simp add: hour_delta_def mult.commute)
  qed
  have mm: "(if hd minute = CHR ''*''
              then mod_str [minute ! 1] (math_Mod (float64 (Time_Minute start)) 10) 10
              else mod_str minute (Time_Minute start) 60) = minute_delta start minute"
  proof (cases "d = CHR ''*''")
    case True
    have l: "math_Mod (float64 (Time_Minute start)) 10 = Time_Minute start mod 10"
      using M by (simp add: float64_exact math_Mod_nonneg)
    have "mod_str [e] (Time_Minute start mod 10) 10 = (digit_val e - Time_Minute start mod 10) mod 10"
      using digit_val_range[OF sh(6)] sh(6) by (intro mod_str_small) (simp_all add: ParseInt_digit1)
    then show ?thesis using True sh l by (simp add: minute_delta_def)
  next
    case False
    have "mod_str minute (Time_Minute start) 60 = (pattern_number minute - Time_Minute start) mod 60"
      using pattern_number_range[of d e] M sh by (intro mod_str_small) (simp_all add: ParseInt_class2 in_class_def)
    then show ?thesis using False sh by (simp add: minute_delta_def)
  qed
  have m1: "mul64 Minute (minute_delta start minute) = Minute * minute_delta start minute"
    using md0 by (intro mul64_id) (simp_all add: Minute_def MinDuration_def MaxDuration_def)
  have a1: "add64 (hour_delta start hour * Hour) (Minute * minute_delta start minute)
              = hour_delta start hour * Hour + minute_delta start minute * Minute"
    using md0 hd0
    by (subst add64_id) (simp_all add: Minute_def Hour_def MinDuration_def MaxDuration_def)
  have "nextAtMatch start at =
          add64 (hour_delta start hour * Hour)
                (mul64 Minute (if hd minute = CHR ''*''
              then mod_str [minute ! 1] (math_Mod (float64 (Time_Minute start)) 10) 10
              else mod_str minute (Time_Minute start) 60))"
    using assms d1 by (simp add: nextAtMatch_def Let_def)
  then show ?thesis by (simp only: mm m1 a1)
qed

text \<open>
  Claim C4. For every anchor and every clock-time pattern that the resolver matches, the
  delta is a number of hours plus a number of minutes. With the hour part \<open>**\<close> the
  hours are 0; with any other hour part they are (pattern hour - anchor hour) mod 24.
  With a minute part of a star and a digit \<open>d\<close> the minutes are
  (\<open>d\<close> - anchor minute mod 10) mod 10; otherwise, in particular with two literal
  digits, they are (pattern minute - anchor minute) mod 60. The delta is never negative.
\<close>

theorem nextAtMatch_delta:
  assumes "FindSubmatch at = Some (hour, minute)"
  shows "\<exists>h m. nextAtMatch start at = h * Hour + m * Minute
           \<and> (hour = ''**'' \<longrightarrow> h = 0)
           \<and> (hour \<noteq> ''**'' \<longrightarrow> h = (pattern_number hour - Time_Hour start) mod 24)
           \<and> (hd minute = CHR ''*'' \<longrightarrow>
                 m = (digit_val (minute ! 1) - Time_Minute start mod 10) mod 10)
           \<and> (hd minute \<noteq> CHR ''*'' \<longrightarrow>
                 m = (pattern_number minute - Time_Minute start) mod 60)
           \<and> 0 \<le> h \<and> 0 \<le> m \<and> 0 \<le> nextAtMatch start at"
proof -
  let ?h = "hour_delta start hour" and ?m = "minute_delta start minute"
  have eq: "nextAtMatch start at = ?h * Hour + ?m * Minute"
    by (rule nextAtMatch_closed[OF assms])
  have h0: "0 \<le> ?h" by (simp add: hour_delta_def)
  have m0: "0 \<le> ?m" by (simp add: minute_delta_def)
  have "0 \<le> ?h * Hour" "0 \<le> ?m * Minute"
    using h0 m0 by (simp_all add: Hour_def Minute_def)
  then have "0 \<le> nextAtMatch start at" using eq by simp
  with eq h0 m0 show ?thesis
    by (intro exI[of _ ?h] exI[of _ ?m]) (simp add: hour_delta_def minute_delta_def)
qed

theorem nextAtMatch_delta_witness:
  "FindSubmatch ''21:*7'' = Some (''21'', ''*7'')
   \<and> nextAtMatch 73800000000000 ''21:*7'' = 1 * Hour + 7 * Minute"
proof -
  have f: "FindSubmatch ''21:*7'' = Some (''21'', ''*7'')"
    by (simp add: in_class_def is_digit_def)
  have H: "Time_Hour 73800000000000 = 20" by (simp add: Time_Hour_def Hour_def)
  have M: "Time_Minute 73800000000000 = 30" by (simp add: Time_Minute_def Minute_def)
  have p: "pattern_number ''21'' = 21" by (simp add: pattern_number_def is_digit_def digit_val_def)
  have d: "digit_val (''*7'' ! 1) = 7" by (simp add: digit_val_def)
  from nextAtMatch_delta[OF f, of 73800000000000] obtain h m where
    "nextAtMatch 73800000000000 ''21:*7'' = h * Hour + m * Minute" "h = 1" "m = 7"
    unfolding H M p d by auto
  with f show ?thesis by simp
qed

lemma FindSubmatch_bar_pattern: "FindSubmatch ''||:00'' = Some (''||'', ''00'')"
  by (simp add: in_class_def is_digit_def)

lemma FindSubmatch_10_00: "FindSubmatch ''10:00'' = Some (''10'', ''00'')"
  by (simp add: in_class_def is_digit_def)

section \<open>The resolver on whole specifications\<close>

lemma EveryN_count: "1 \<le> every_n (EveryN k)"
  by (simp add: EveryN_def)

text \<open>
  The hour unit with a pattern that matches: the count of hours, plus the whole
  clock-time delta, hours of the pattern included.
\<close>

lemma Duration_hour_unit:
  assumes "Each w = []" "Every w = Some e" "every_t e = tHour"
    and "FindSubmatch (At w) = Some (hour, minute)"
  shows "Duration pd w start =
           add64 (mul64 (every_n e) Hour)
                 (hour_delta start hour * Hour + minute_delta start minute * Minute)"
  using assms by (simp add: Duration_def nextAtMatch_closed)

text \<open>
  Claim C2, at a concrete input. Every hour with the pattern \<open>10:00\<close>, resolved at
  00:40: the program returns one hour, plus the ten hours from hour 0 to hour 10, plus
  the twenty minutes to the full hour. The hour digits of the pattern are not ignored.
\<close>

theorem Duration_hour_unit_adds_At_hour:
  "Duration ParseDuration_5s
     \<lparr>LastRun = zero_Time, Each = [], Every = Some (Hours (EveryN 1)), On = NoDay, At = ''10:00''\<rparr>
     (40 * Minute) = 11 * Hour + 20 * Minute"
proof -
  have "nextAtMatch (40 * Minute) ''10:00'' = 10 * Hour + 20 * Minute"
    by (simp add: nextAtMatch_closed[OF FindSubmatch_10_00] hour_delta_def minute_delta_def
        pattern_number_def is_digit_def digit_val_def Time_Hour_def Time_Minute_def Hour_def Minute_def)
  then show ?thesis
    by (simp add: Duration_def Hours_def EveryN_def mul64_def add64_def wrap64_def Hour_def Minute_def)
qed

text \<open>
  Claim C10, at a concrete input. The string \<open>||:00\<close> has no digit and no star
  before the colon, yet the program's expression matches it: at 01:00 the clock-time
  delta is 23 hours, not zero.
\<close>

theorem nextAtMatch_bar_pattern:
  "\<not> has_clock_shape ''||:00'' \<and> nextAtMatch Hour ''||:00'' = 23 * Hour"
  by (simp add: in_shape_def nextAtMatch_closed[OF FindSubmatch_bar_pattern] hour_delta_def minute_delta_def
        pattern_number_def is_digit_def digit_val_def Time_Hour_def Time_Minute_def Hour_def Minute_def)

text \<open>
  Where nothing matches the delta is zero, and a string without a bar that has no
  substring of the shape in words is not matched. Then the hour, day and week units
  resolve to the count times the unit, in machine arithmetic.
\<close>

lemma nextAtMatch_no_match: "FindSubmatch at = None \<Longrightarrow> nextAtMatch start at = 0"
  by (simp add: nextAtMatch_def)

lemma has_clock_shape_matched:
  "\<not> has_clock_shape at \<Longrightarrow> CHR ''|'' \<notin> set at \<Longrightarrow> FindSubmatch at = None"
  by (induction at rule: FindSubmatch.induct) (auto simp: in_class_def in_shape_def)

lemma nextAtMatch_no_shape:
  "\<not> has_clock_shape at \<Longrightarrow> CHR ''|'' \<notin> set at \<Longrightarrow> nextAtMatch start at = 0"
  by (simp add: has_clock_shape_matched nextAtMatch_no_match)

lemma Duration_no_At:
  assumes "Each w = []" "Every w = Some e" "FindSubmatch (At w) = None"
  shows "every_t e = tHour \<Longrightarrow> Duration pd w start = mul64 (every_n e) Hour"
    and "every_t e = tDay \<Longrightarrow> Duration pd w start = mul64 (mul64 (every_n e) 24) Hour"
    and "every_t e = tWeek \<Longrightarrow> On w = NoDay \<Longrightarrow>
           Duration pd w start = mul64 (mul64 (mul64 (every_n e) 7) 24) Hour"
  using assms
  by (simp_all add: Duration_def nextAtMatch_no_match add64_def mul64_def wrap64_def)

lemma nextDayMatch_weekday:
  assumes "1 \<le> day" "day \<le> 7"
  shows "nextDayMatch start day = ((day - 1 - Time_Weekday start) mod 7) * (24 * Hour)"
proof -
  have W: "0 \<le> Time_Weekday start" "Time_Weekday start < 7" using Time_Weekday_range by auto
  have 1: "sub64 day 1 = day - 1"
    using assms by (intro sub64_id) (simp_all add: MinDuration_def MaxDuration_def)
  have 2: "add64 7 (day - 1) = 7 + (day - 1)"
    using assms by (intro add64_id) (simp_all add: MinDuration_def MaxDuration_def)
  have 3: "sub64 (7 + (day - 1)) (Time_Weekday start) = 7 + (day - 1) - Time_Weekday start"
    using assms W by (intro sub64_id) (simp_all add: MinDuration_def MaxDuration_def)
  have 4: "float64 (7 + (day - 1) - Time_Weekday start) = 7 + (day - 1) - Time_Weekday start"
    using assms W by (intro float64_exact) simp
  have 5: "math_Mod (7 + (day - 1) - Time_Weekday start) 7 = (day - 1 - Time_Weekday start) mod 7"
  proof -
    have "math_Mod (7 + (day - 1) - Time_Weekday start) 7 = (7 + (day - 1) - Time_Weekday start) mod 7"
      using assms W by (intro math_Mod_nonneg) simp_all
    also have "\<dots> = (day - 1 - Time_Weekday start) mod 7"
      by (metis add_diff_eq mod_add_self1)
    finally show ?thesis .
  qed
  let ?k = "(day - 1 - Time_Weekday start) mod 7"
  have k: "0 \<le> ?k" "?k < 7" by simp_all
  have 6: "mul64 ?k 24 = ?k * 24"
    using k by (intro mul64_id) (simp_all add: MinDuration_def MaxDuration_def)
  have 7: "mul64 (?k * 24) Hour = ?k * 24 * Hour"
    using k by (intro mul64_id) (simp_all add: MinDuration_def MaxDuration_def Hour_def)
  show ?thesis
    unfolding nextDayMatch_def 1 2 3 4 5 6 7 by simp
qed

text \<open>
  What the program returns for a weekday without \<open>Every\<close>: the clock-time delta
  taken at the anchor shifted to that weekday. The days of the shift are not in the
  result, and since whole days leave the clock reading as it is, the result is the
  clock-time delta at the anchor itself.
\<close>

lemma Duration_weekday_spec:
  assumes "Each w = []" "Every w = None" "Sun \<le> On w" "On w \<le> Sat"
  shows "Duration pd w start =
           nextAtMatch (Add start (((On w - 1 - Time_Weekday start) mod 7) * (24 * Hour))) (At w)"
  using assms nextDayMatch_weekday[of "On w" start]
  by (simp add: Duration_def nextDayAndAtMatch_def NoDay_def Sun_def Sat_def)

lemma Time_Hour_whole_days: "Time_Hour (Add t (k * (24 * Hour))) = Time_Hour t"
proof -
  have "(t + k * (24 * Hour)) div Hour = t div Hour + k * 24"
    by (simp add: Hour_def)
  then show ?thesis by (simp add: Time_Hour_def Add_def)
qed

lemma Time_Minute_whole_days: "Time_Minute (Add t (k * (24 * Hour))) = Time_Minute t"
proof -
  have e: "t + k * (24 * Hour) = t + (k * 1440) * Minute" by (simp add: Hour_def Minute_def)
  have "(t + (k * 1440) * Minute) div Minute = t div Minute + k * 1440"
    by (simp add: Minute_def)
  then have "(t + k * (24 * Hour)) div Minute = t div Minute + k * 1440"
    by (simp only: e)
  moreover have "(t div Minute + k * 1440) mod 60 = t div Minute mod 60"
  proof -
    have "k * 1440 = (k * 24) * 60" by simp
    then show ?thesis by (simp only: mod_mult_self1)
  qed
  ultimately show ?thesis by (simp only: Time_Minute_def Add_def)
qed

lemma nextAtMatch_whole_days: "nextAtMatch (Add t (k * (24 * Hour))) at = nextAtMatch t at"
  unfolding nextAtMatch_def Time_Hour_whole_days Time_Minute_whole_days ..

lemma Duration_weekday_spec_clock_only:
  assumes "Each w = []" "Every w = None" "Sun \<le> On w" "On w \<le> Sat"
  shows "Duration pd w start = nextAtMatch start (At w)"
  using Duration_weekday_spec[OF assms] by (simp add: nextAtMatch_whole_days)

lemma FindSubmatch_20_30: "FindSubmatch ''20:30'' = Some (''20'', ''30'')"
  by (simp add: in_class_def is_digit_def)

text \<open>
  Claim C3, at a concrete input. Thursday 1970-01-01 at 20:30, a job for Monday at
  20:30: the days to Monday are four and the clock already shows 20:30, so the claimed
  wait is four days; the program returns 0.
\<close>

theorem Duration_weekday_spec_omits_days:
  "Duration ParseDuration_5s
     \<lparr>LastRun = zero_Time, Each = [], Every = None, On = Mon, At = ''20:30''\<rparr> 73800000000000 = 0
   \<and> ((Mon - 1 - Time_Weekday 73800000000000) mod 7) * (24 * Hour)
       + nextAtMatch (Add 73800000000000 (((Mon - 1 - Time_Weekday 73800000000000) mod 7) * (24 * Hour))) ''20:30''
     = 4 * (24 * Hour)"
proof -
  have k: "(Mon - 1 - Time_Weekday 73800000000000) mod 7 = 4"
    by (simp add: Mon_def Time_Weekday_def Hour_def)
  have n: "nextAtMatch (Add 73800000000000 (4 * (24 * Hour))) ''20:30'' = 0"
    by (simp add: nextAtMatch_closed[OF FindSubmatch_20_30] hour_delta_def minute_delta_def Add_def
        pattern_number_def is_digit_def digit_val_def Time_Hour_def Time_Minute_def Hour_def Minute_def)
  have d: "nextDayMatch 73800000000000 Mon = 4 * (24 * Hour)"
    using nextDayMatch_weekday[of Mon 73800000000000] k by (simp add: Mon_def)
  have "Mon \<noteq> NoDay" by (simp add: Mon_def NoDay_def)
  then show ?thesis
    unfolding k using n by (simp add: Duration_def nextDayAndAtMatch_def d)
qed

section \<open>The catch-up loop\<close>

lemma stays_late_step:
  "stays_late I pd w start clock x \<Longrightarrow>
     stays_late I pd w start clock (add64 x (Duration pd w (Add start x)))"
  unfolding stays_late_def by simp

lemma stays_late_no_exit:
  "stays_late I pd w start clock x \<Longrightarrow> \<not> 0 < Sub (Add start x) (clock i)"
  unfolding stays_late_def by (simp add: not_less)

lemma Next_loop_Some_not_late:
  "Next_loop pd w start clock i interval = Some y \<Longrightarrow> \<not> stays_late I pd w start clock interval"
proof (rule Next_loop.raw_induct[where P = "\<lambda>pd w start clock i interval y. \<not> stays_late I pd w start clock interval"], goal_cases)
  case (1 f pd w start clock i interval y)
  show ?case
  proof
    assume a: "stays_late I pd w start clock interval"
    from 1(3) stays_late_no_exit[OF a, of i]
    have "f pd w start clock (Suc i) (add64 interval (Duration pd w (Add start interval))) = Some y"
      by simp
    from 1(2)[OF this] stays_late_step[OF a] show False by simp
  qed
qed

lemma Next_loop_never_returns:
  assumes "I interval"
    and "\<And>x i. I x \<Longrightarrow> Sub (Add start x) (clock i) \<le> 0"
    and "\<And>x. I x \<Longrightarrow> I (add64 x (Duration pd w (Add start x)))"
  shows "Next_loop pd w start clock i interval = None"
proof (cases "Next_loop pd w start clock i interval")
  case None then show ?thesis .
next
  case (Some y)
  have "stays_late I pd w start clock interval"
    unfolding stays_late_def using assms by simp
  with Next_loop_Some_not_late[OF Some, of I] show ?thesis by simp
qed

lemma Sub_exact: "MinDuration \<le> t - u \<Longrightarrow> t - u \<le> MaxDuration \<Longrightarrow> Sub t u = t - u"
  by (simp add: Sub_def)

lemma Sub_nonpos: "t \<le> u \<Longrightarrow> Sub t u \<le> 0"
  by (simp add: Sub_def MinDuration_def MaxDuration_def)

lemma Sub_pos_iff: "0 < Sub t u \<longleftrightarrow> u < t"
  by (simp add: Sub_def MinDuration_def MaxDuration_def)

lemma Duration_every_small_unit:
  assumes "Each w = []" "Every w = Some e" "every_t e \<in> {tMillisecond, tSecond, tMinute}"
  shows "Duration pd w t = mul64 (every_n e) (unit_length (every_t e))"
  using assms by (auto simp: Duration_def)

lemma Next_loop_catch_up:
  assumes D: "\<And>t. Duration pd w t = base"
    and b: "0 < base"
    and range: "base + \<bar>now - anchor\<bar> \<le> MaxDuration"
    and k: "k = (if now < anchor then 1 else (now - anchor) div base + 1)"
    and j: "1 \<le> j" "j \<le> k"
  shows "Next_loop pd w anchor (frozen_clock now) i (j * base) = Some (k * base - (now - anchor))"
  using j
proof (induction "nat (k - j)" arbitrary: j i)
  case 0
  then have jk: "j = k" by simp
  have pos: "0 < k * base - (now - anchor)" and le: "k * base - (now - anchor) \<le> MaxDuration"
  proof -
    have both: "0 < k * base - (now - anchor) \<and> k * base - (now - anchor) \<le> MaxDuration"
    proof (cases "now < anchor")
      case True
      then show ?thesis using k b range by simp
    next
      case False
      let ?q = "(now - anchor) div base"
      have kb: "k * base = ?q * base + base" using k False by (simp add: algebra_simps)
      have dm: "?q * base + (now - anchor) mod base = now - anchor" by simp
      have m0: "0 \<le> (now - anchor) mod base" "(now - anchor) mod base < base" using b by simp_all
      show ?thesis using kb dm m0 range by linarith
    qed
    show "0 < k * base - (now - anchor)" using both by simp
    show "k * base - (now - anchor) \<le> MaxDuration" using both by simp
  qed
  have "Sub (Add anchor (k * base)) now = k * base - (now - anchor)"
    unfolding Add_def using pos le by (subst Sub_exact) (simp_all add: MinDuration_def)
  then show ?case
    using pos by (subst Next_loop.simps) (simp add: jk frozen_clock_def)
next
  case (Suc m)
  then have jk: "j < k" by simp
  then have ge: "anchor \<le> now" using k Suc.prems by (simp split: if_splits)
  let ?q = "(now - anchor) div base"
  have kq: "k = ?q + 1" using k ge by simp
  have dm: "?q * base + (now - anchor) mod base = now - anchor" by simp
  have m0: "0 \<le> (now - anchor) mod base" using b by simp
  have "j \<le> ?q" using jk kq by simp
  then have "j * base \<le> ?q * base" using b by (intro mult_right_mono) simp_all
  then have late: "j * base \<le> now - anchor" using dm m0 by linarith
  then have noexit: "\<not> 0 < Sub (Add anchor (j * base)) now"
    by (simp add: Sub_pos_iff Add_def)
  have "(j + 1) * base \<le> ?q * base + base"
    using \<open>j * base \<le> ?q * base\<close> by (simp add: algebra_simps)
  then have up: "(j + 1) * base \<le> MaxDuration" using dm m0 range ge by linarith
  have "0 \<le> j * base" using Suc.prems b by simp
  then have "0 \<le> (j + 1) * base" using b by (simp add: algebra_simps)
  then have a: "add64 (j * base) base = (j + 1) * base"
    using up by (subst add64_id) (simp_all add: algebra_simps MinDuration_def)
  have "Next_loop pd w anchor (frozen_clock now) i (j * base)
          = Next_loop pd w anchor (frozen_clock now) (Suc i) ((j + 1) * base)"
    using noexit by (subst Next_loop.simps) (simp add: frozen_clock_def D a)
  also have "\<dots> = Some (k * base - (now - anchor))"
    using Suc.hyps(2) jk Suc.prems by (intro Suc.hyps(1)) simp_all
  finally show ?case .
qed

lemma unit_length_small_pos:
  "u \<in> {tMillisecond, tSecond, tMinute} \<Longrightarrow> 0 < unit_length u"
  by (auto simp: Millisecond_def Second_def Minute_def)

text \<open>
  Claim C1, as amended. A spec with \<open>Every\<close> set, a unit among millisecond, second
  and minute, a count \<open>n \<ge> 1\<close> and no clock-time pattern has the base interval
  \<open>n\<close> times the unit. When the base interval plus the distance between the anchor
  and now fits a \<open>Duration\<close>, \<open>Next\<close> at a clock showing \<open>now\<close> returns
  \<open>k * base - (now - anchor)\<close>, which is positive, where \<open>k \<ge> 1\<close> is the least
  number of base intervals from the anchor that lands after now; \<open>k = 1\<close> when
  \<open>now - anchor\<close> is less than the base interval.
\<close>

theorem Next_every_catch_up:
  assumes "Each w = []" "At w = []" "Every w = Some e"
    and "every_t e \<in> {tMillisecond, tSecond, tMinute}"
    and "1 \<le> every_n e"
    and "base = every_n e * unit_length (every_t e)"
    and "base + \<bar>now - anchor\<bar> \<le> MaxDuration"
  shows "\<exists>k\<ge>1. Next pd w anchor (frozen_clock now) = Some (k * base - (now - anchor))
           \<and> 0 < k * base - (now - anchor)
           \<and> (\<forall>j. 1 \<le> j \<and> j < k \<longrightarrow> anchor + j * base \<le> now)
           \<and> (now - anchor < base \<longrightarrow> k = 1)"
proof -
  define k where "k = (if now < anchor then 1 else (now - anchor) div base + 1)"
  have b: "0 < base"
    using assms(5,6) unit_length_small_pos[OF assms(4)] by simp
  have "mul64 (every_n e) (unit_length (every_t e)) = base"
    using assms(6,7) b by (subst mul64_id) (simp_all add: MinDuration_def)
  then have D: "\<And>t. Duration pd w t = base"
    using Duration_every_small_unit[OF assms(1,3,4)] by simp
  have k1: "1 \<le> k"
    using b by (simp add: k_def pos_imp_zdiv_nonneg_iff)
  have "Next_loop pd w anchor (frozen_clock now) 0 (1 * base) = Some (k * base - (now - anchor))"
    using k1 by (intro Next_loop_catch_up[OF D b assms(7) k_def]) simp_all
  then have N: "Next pd w anchor (frozen_clock now) = Some (k * base - (now - anchor))"
    by (simp add: Next_def D)
  have pos: "0 < k * base - (now - anchor)"
  proof (cases "now < anchor")
    case True
    then show ?thesis using b by (simp add: k_def)
  next
    case False
    have kb: "k * base = (now - anchor) div base * base + base"
      using False by (simp add: k_def algebra_simps)
    have dm: "(now - anchor) div base * base + (now - anchor) mod base = now - anchor" by simp
    have "(now - anchor) mod base < base" using b by simp
    then show ?thesis using kb dm by linarith
  qed
  have skipped: "anchor + j * base \<le> now" if "1 \<le> j" "j < k" for j
  proof -
    have ge: "\<not> now < anchor" using that by (simp add: k_def split: if_splits)
    then have "j \<le> (now - anchor) div base" using that by (simp add: k_def)
    then have "j * base \<le> (now - anchor) div base * base"
      using b by (intro mult_right_mono) simp_all
    moreover have "(now - anchor) div base * base + (now - anchor) mod base = now - anchor" by simp
    moreover have "0 \<le> (now - anchor) mod base" using b by simp
    ultimately show ?thesis by linarith
  qed
  have first: "k = 1" if "now - anchor < base"
  proof (cases "now < anchor")
    case True
    then show ?thesis by (simp add: k_def)
  next
    case False
    then have "(now - anchor) div base = 0" using that by (simp add: div_pos_pos_trivial)
    then show ?thesis using False by (simp add: k_def)
  qed
  show ?thesis
    using k1 N pos skipped first by (intro exI[of _ k]) simp
qed

theorem Next_every_catch_up_witness:
  "Next ParseDuration_5s
     \<lparr>LastRun = zero_Time, Each = [], Every = Some (Milliseconds (EveryN 100)), On = NoDay, At = []\<rparr>
     0 (frozen_clock 250000000) = Some 50000000"
proof -
  let ?w = "\<lparr>LastRun = zero_Time, Each = [], Every = Some (Milliseconds (EveryN 100)), On = NoDay, At = []\<rparr>"
  let ?e = "Milliseconds (EveryN 100)"
  have a: "Each ?w = []" "At ?w = []" "Every ?w = Some ?e"
    "every_t ?e \<in> {tMillisecond, tSecond, tMinute}" "1 \<le> every_n ?e"
    by (simp_all add: Milliseconds_def EveryN_def)
  have base: "(100000000::int) = every_n ?e * unit_length (every_t ?e)"
    by (simp add: Milliseconds_def EveryN_def Millisecond_def)
  have r: "(100000000::int) + \<bar>250000000 - 0\<bar> \<le> MaxDuration"
    by (simp add: MaxDuration_def)
  from Next_every_catch_up[OF a base r, of ParseDuration_5s] obtain k :: int where
    k: "1 \<le> k" "Next ParseDuration_5s ?w 0 (frozen_clock 250000000) = Some (k * 100000000 - (250000000 - 0))"
      "0 < k * 100000000 - (250000000 - 0)"
      "\<forall>j. 1 \<le> j \<and> j < k \<longrightarrow> 0 + j * 100000000 \<le> (250000000::int)"
    by blast
  have "\<not> 3 < k"
  proof
    assume "3 < k"
    with k(4) have "0 + 3 * 100000000 \<le> (250000000::int)" by (intro k(4)[rule_format]) simp
    then show False by simp
  qed
  moreover have "3 \<le> k" using k(3) by simp
  ultimately have "k = 3" by simp
  with k(2) show ?thesis by simp
qed

lemma Duration_wrapped_min:
  "Duration pd \<lparr>LastRun = l, Each = [], Every = Some (Milliseconds (EveryN 144115188075855872)),
                  On = d, At = a\<rparr> t = MinDuration"
  by (simp add: Duration_def Milliseconds_def EveryN_def mul64_def wrap64_def Millisecond_def MinDuration_def)

lemma Next_wrapped_min_never_returns:
  assumes "\<And>i. start \<le> clock i"
  shows "Next pd \<lparr>LastRun = l, Each = [], Every = Some (Milliseconds (EveryN 144115188075855872)),
                  On = d, At = a\<rparr> start clock = None"
  unfolding Next_def Duration_wrapped_min
proof (rule Next_loop_never_returns[where I = "\<lambda>x. x = MinDuration \<or> x = 0"], goal_cases)
  case 1
  show ?case by simp
next
  case (2 x i)
  have "Add start x \<le> clock i"
    using 2 assms[of i] by (auto simp: Add_def MinDuration_def)
  then show ?case by (rule Sub_nonpos)
next
  case (3 x)
  then show ?case
    by (auto simp: Duration_wrapped_min add64_def wrap64_def MinDuration_def)
qed

text \<open>
  Claim C1 as stated fails. \<open>Every(2^57).Milliseconds()\<close> has the count
  \<open>144115188075855872 \<ge> 1\<close>; the product with \<open>time.Millisecond\<close> wraps to the
  least \<open>Duration\<close>, which is not zero. With the anchor at now, \<open>Next\<close> returns
  nothing at all.
\<close>

theorem Next_every_wrapped_never_returns:
  "Next ParseDuration_5s
     \<lparr>LastRun = zero_Time, Each = [], Every = Some (Milliseconds (EveryN 144115188075855872)),
      On = NoDay, At = []\<rparr> 0 (frozen_clock 0) = None"
  by (rule Next_wrapped_min_never_returns) (simp add: frozen_clock_def)

lemma Duration_Each: "Each w \<noteq> [] \<Longrightarrow> Duration pd w t = pd (Each w)"
  by (simp add: Duration_def)

lemma Next_loop_minus_5s:
  assumes D: "\<And>t. Duration pd w t = - 5000000000"
    and late: "start \<le> now" "now - start < 9223372033709551616"
    and j: "1 \<le> j" "j \<le> 1844674407" "x = - (5000000000 * j)"
  shows "Next_loop pd w start (frozen_clock now) i x
           = Some (9223372033709551616 - (now - start))"
  using j
proof (induction "nat (1844674407 - j)" arbitrary: j i x)
  case 0
  then have x: "x = - 9223372035000000000" by simp
  have 1: "\<not> 0 < Sub (Add start (- 9223372035000000000)) now"
    using late by (simp add: Sub_pos_iff Add_def)
  have 2: "add64 (- 9223372035000000000) (- 5000000000) = 9223372033709551616"
    by (simp add: add64_def wrap64_def)
  have 3: "Sub (Add start 9223372033709551616) now = 9223372033709551616 - (now - start)"
    using late by (simp add: Sub_def Add_def MinDuration_def MaxDuration_def)
  have 4: "0 < 9223372033709551616 - (now - start)" using late by simp
  have "Next_loop pd w start (frozen_clock now) i (- 9223372035000000000)
          = Next_loop pd w start (frozen_clock now) (Suc i) 9223372033709551616"
    using 1 by (subst Next_loop.simps) (simp add: frozen_clock_def D 2)
  also have "\<dots> = Some (9223372033709551616 - (now - start))"
    using 4 by (subst Next_loop.simps) (simp add: frozen_clock_def 3)
  finally show ?case by (simp add: x)
next
  case (Suc m)
  then have jl: "j < 1844674407" by simp
  have 1: "\<not> 0 < Sub (Add start x) now"
    using Suc.prems late by (simp add: Sub_pos_iff Add_def)
  have 2: "add64 x (- 5000000000) = x - 5000000000"
    using jl Suc.prems by (subst add64_id) (simp_all add: MinDuration_def MaxDuration_def)
  have "Next_loop pd w start (frozen_clock now) i x
          = Next_loop pd w start (frozen_clock now) (Suc i) (x - 5000000000)"
    using 1 by (subst Next_loop.simps) (simp add: frozen_clock_def D 2)
  also have "\<dots> = Some (9223372033709551616 - (now - start))"
    using Suc.hyps(2) jl Suc.prems by (intro Suc.hyps(1)[of "j + 1"]) simp_all
  finally show ?case .
qed

text \<open>
  With \<open>Each = "-5s"\<close> and an anchor at or before now (and less than 292 years
  before), the interval goes down by five seconds a round for 1844674407 rounds; the
  next subtraction wraps around to a positive interval and \<open>Next\<close> returns.
\<close>

lemma Next_Each_minus_5s_wraps:
  assumes "Each w = ''-5s''" "pd ''-5s'' = - 5 * Second"
    and "start \<le> now" "now - start < 9223372033709551616"
  shows "Next pd w start (frozen_clock now) = Some (9223372033709551616 - (now - start))"
proof -
  have D: "\<And>t. Duration pd w t = - 5000000000"
    using assms(1,2) by (simp add: Duration_Each Second_def)
  show ?thesis
    unfolding Next_def D
    by (rule Next_loop_minus_5s[OF D assms(3,4), of 1]) simp_all
qed

text \<open>
  At the epoch, with the anchor at now, the call returns an interval of some 292 years.
  With an anchor \<open>2^63 - 1\<close> nanoseconds or more before every reading of the clock,
  no interval can reach the clock and the call never returns.
\<close>

lemma Next_Each_minus_5s_returns:
  "Next ParseDuration_5s
     \<lparr>LastRun = zero_Time, Each = ''-5s'', Every = None, On = NoDay, At = []\<rparr>
     0 (frozen_clock 0) = Some 9223372033709551616"
  using Next_Each_minus_5s_wraps[of "\<lparr>LastRun = zero_Time, Each = ''-5s'', Every = None, On = NoDay, At = []\<rparr>"
      ParseDuration_5s 0 0]
  by (simp add: ParseDuration_5s_def)

lemma wrap64_range: "MinDuration \<le> wrap64 x \<and> wrap64 x \<le> MaxDuration"
  by (simp add: wrap64_def MinDuration_def MaxDuration_def)

lemma Next_Each_minus_5s_far_past:
  assumes "Each w = ''-5s''" "pd ''-5s'' = - 5 * Second"
    and far: "\<And>i. start + MaxDuration \<le> clock i"
  shows "Next pd w start clock = None"
proof -
  have D: "\<And>t. Duration pd w t = - 5000000000"
    using assms(1,2) by (simp add: Duration_Each Second_def)
  show ?thesis
    unfolding Next_def D
  proof (rule Next_loop_never_returns[where I = "\<lambda>x. MinDuration \<le> x \<and> x \<le> MaxDuration"], goal_cases)
    case 1
    show ?case by (simp add: MinDuration_def MaxDuration_def)
  next
    case (2 x i)
    then have "Add start x \<le> clock i" using far[of i] by (simp add: Add_def)
    then show ?case by (rule Sub_nonpos)
  next
    case (3 x)
    show ?case unfolding add64_def by (rule wrap64_range)
  qed
qed

section \<open>Registration\<close>

lemma ScheduleWithOpts_duplicate:
  "jobs s name \<noteq> None \<Longrightarrow>
     ScheduleWithOpts pd name jb opts now clock s
       = Some (Returned (Some ''a job already exists with the name provided'', s))"
  by (simp add: ScheduleWithOpts_def)

lemma ScheduleWithOpts_invalid:
  "jobs s name = None \<Longrightarrow> When op = None \<or> (\<exists>w. When op = Some w \<and> Duration pd w now = 0) \<Longrightarrow>
     ScheduleWithOpts pd name jb (Some op) now clock s
       = Some (Returned (Some ''not a valid opts.When is provided'', s))"
  by (auto simp: ScheduleWithOpts_def)

lemma ScheduleWithOpts_accepted:
  assumes "jobs s name = None" "When op = Some w" "Duration pd w now \<noteq> 0"
  shows "ScheduleWithOpts pd name jb (Some op) now clock s \<noteq> Some (Returned (Some e, s'))"
  using assms
  by (auto simp: ScheduleWithOpts_def Let_def split: option.splits outcome.splits)

text \<open>
  Claim C5. With an options value at hand, registration returns an error exactly when
  the name is already registered, or \<open>When\<close> is \<open>nil\<close>, or \<open>Duration\<close> of
  \<open>When\<close> at the current instant is zero; and whenever it returns an error the
  scheduler, its job map included, is what it was before the call.
\<close>

theorem ScheduleWithOpts_error_iff:
  "((\<exists>e s'. ScheduleWithOpts pd name jb (Some op) now clock s = Some (Returned (Some e, s')))
      \<longleftrightarrow> (jobs s name \<noteq> None \<or> When op = None
            \<or> (\<exists>w. When op = Some w \<and> Duration pd w now = 0)))
   \<and> (\<forall>e s'. ScheduleWithOpts pd name jb (Some op) now clock s = Some (Returned (Some e, s'))
          \<longrightarrow> s' = s)"
proof -
  let ?R = "ScheduleWithOpts pd name jb (Some op) now clock s"
  let ?cond = "jobs s name \<noteq> None \<or> When op = None \<or> (\<exists>w. When op = Some w \<and> Duration pd w now = 0)"
  have yes: "\<exists>e. ?R = Some (Returned (Some e, s))" if "?cond"
  proof (cases "jobs s name = None")
    case True
    with that ScheduleWithOpts_invalid[of s name op pd now jb clock] show ?thesis by blast
  next
    case False
    then show ?thesis using ScheduleWithOpts_duplicate[of s name pd jb "Some op" now clock] by blast
  qed
  have no: "?R \<noteq> Some (Returned (Some e, s'))" if "\<not> ?cond" for e s'
  proof -
    from that obtain w where "jobs s name = None" "When op = Some w" "Duration pd w now \<noteq> 0"
      by auto
    then show ?thesis by (rule ScheduleWithOpts_accepted)
  qed
  have same: "s' = s" if "?R = Some (Returned (Some e, s'))" for e s'
  proof -
    have "?cond" using no that by blast
    then obtain e' where "?R = Some (Returned (Some e', s))" using yes by blast
    with that show ?thesis by simp
  qed
  show ?thesis using yes no same by blast
qed

theorem ScheduleWithOpts_error_iff_witness:
  "\<exists>e. ScheduleWithOpts ParseDuration_5s ''print'' ()
          (Some \<lparr>When = None, RetryCount = 0, Timeout = 0\<rparr>) 0 (frozen_clock 0)
          \<lparr>jobs = Map.empty, started = False, wg = 0\<rparr>
        = Some (Returned (Some e, \<lparr>jobs = Map.empty, started = False, wg = 0\<rparr>))"
proof -
  let ?op = "\<lparr>When = None, RetryCount = 0, Timeout = 0\<rparr>"
  let ?s = "\<lparr>jobs = Map.empty, started = False, wg = 0\<rparr> :: unit Scheduler"
  let ?R = "ScheduleWithOpts ParseDuration_5s ''print'' () (Some ?op) 0 (frozen_clock 0) ?s"
  note t = ScheduleWithOpts_error_iff[of ParseDuration_5s "''print''" "()" ?op 0 "frozen_clock 0" ?s]
  have "When ?op = None" by simp
  with t obtain e s' where r: "?R = Some (Returned (Some e, s'))" by blast
  with t have "s' = ?s" by blast
  with r show ?thesis by blast
qed

section \<open>The retry loop\<close>

lemma state_before_Suc: "state_before Rn st (Suc m) = state_before Rn (snd (Rn st)) m"
  unfolding state_before_def by (simp only: funpow_Suc_right o_apply)

lemma state_before_0: "state_before Rn st 0 = st"
  by (simp add: state_before_def)

lemma run_loop_exit: "\<not> i < bound \<Longrightarrow> run_loop Rn bound i st c = (c, st)"
  by (subst run_loop.simps) simp

lemma run_loop_success:
  "i < bound \<Longrightarrow> Rn st = (None, st') \<Longrightarrow> run_loop Rn bound i st c = (Suc c, st')"
  by (subst run_loop.simps) simp

lemma run_loop_failure:
  "i < bound \<Longrightarrow> Rn st = (Some e, st') \<Longrightarrow>
     run_loop Rn bound i st c = run_loop Rn bound (i + 1) st' (Suc c)"
  by (subst run_loop.simps) simp

lemma run_loop_spec:
  "\<exists>k. run_loop Rn bound i st c = (c + k, state_before Rn st k)
        \<and> attempts_ok Rn st (nat (bound - i)) k"
proof (induction Rn bound i st c rule: run_loop.induct)
  case (1 Rn bound i st c)
  show ?case
  proof (cases "i < bound")
    case False
    then have "run_loop Rn bound i st c = (c + 0, state_before Rn st 0)"
      by (simp add: run_loop_exit state_before_0)
    moreover have "attempts_ok Rn st (nat (bound - i)) 0"
      using False by (simp add: attempts_ok_def)
    ultimately show ?thesis by blast
  next
    case True
    obtain r st' where R: "Rn st = (r, st')" by (cases "Rn st")
    show ?thesis
    proof (cases r)
      case None
      have "run_loop Rn bound i st c = (c + 1, state_before Rn st 1)"
        using True R None by (simp add: run_loop_success state_before_def)
      moreover have "attempts_ok Rn st (nat (bound - i)) 1"
        using True R None by (simp add: attempts_ok_def state_before_0)
      ultimately show ?thesis by blast
    next
      case (Some err)
      from 1[of r st' err] True R Some obtain k where
        k: "run_loop Rn bound (i + 1) st' (Suc c) = (Suc c + k, state_before Rn st' k)"
           "attempts_ok Rn st' (nat (bound - (i + 1))) k"
        by auto
      have st': "st' = snd (Rn st)" using R by simp
      have lim: "nat (bound - i) = Suc (nat (bound - (i + 1)))" using True by simp
      have "run_loop Rn bound i st c = (c + Suc k, state_before Rn st (Suc k))"
        using True R Some k(1) by (simp add: run_loop_failure state_before_Suc)
      moreover have "attempts_ok Rn st (nat (bound - i)) (Suc k)"
        unfolding attempts_ok_def lim
      proof (intro conjI allI impI)
        show "Suc k \<le> Suc (nat (bound - (i + 1)))"
          using k(2) by (simp add: attempts_ok_def)
      next
        fix m assume m: "Suc m < Suc k"
        show "fst (Rn (state_before Rn st m)) \<noteq> None"
        proof (cases m)
          case 0
          then show ?thesis using R Some by (simp add: state_before_0)
        next
          case (Suc m')
          then have "Suc m' < k" using m by simp
          then have "fst (Rn (state_before Rn st' m')) \<noteq> None"
            using k(2) by (simp add: attempts_ok_def)
          then show ?thesis by (simp add: Suc state_before_Suc st')
        qed
      next
        show "0 < Suc k" by simp
      next
        assume "Suc k < Suc (nat (bound - (i + 1)))"
        then have "k < nat (bound - (i + 1))" by simp
        then have "0 < k" "fst (Rn (state_before Rn st' (k - 1))) = None"
          using k(2) by (simp_all add: attempts_ok_def)
        then have "state_before Rn st (Suc k - 1) = state_before Rn st' (k - 1)"
          using state_before_Suc[of Rn st "k - 1"] st' by simp
        then show "fst (Rn (state_before Rn st (Suc k - 1))) = None"
          using \<open>fst (Rn (state_before Rn st' (k - 1))) = None\<close> by simp
      qed
      ultimately show ?thesis by blast
    qed
  qed
qed

lemma run_eq:
  "run Rn j = (fst (run_loop Rn (add64 (retryCount j) 1) 0 (job j) 0),
               j\<lparr>job := snd (run_loop Rn (add64 (retryCount j) 1) 0 (job j) 0)\<rparr>)"
  by (simp add: run_def split: prod.splits)

text \<open>
  Claim C6, as amended. For a retry count \<open>k\<close> with \<open>0 \<le> k < 2^63 - 1\<close>, one
  run calls \<open>Run\<close> at least once and at most \<open>k + 1\<close> times; every call but the
  last failed, and a run of fewer than \<open>k + 1\<close> calls ended on a success. When
  \<open>Run\<close> always fails there are exactly \<open>k + 1\<close> calls. \<open>run\<close> is a total
  function with no error in its result: the failure stays inside.
\<close>

theorem run_retry_bound:
  assumes "0 \<le> retryCount j" "retryCount j < 9223372036854775807"
  shows "\<exists>k. fst (run Rn j) = k \<and> job (snd (run Rn j)) = state_before Rn (job j) k
           \<and> 1 \<le> k \<and> int k \<le> retryCount j + 1
           \<and> (\<forall>m. Suc m < k \<longrightarrow> fst (Rn (state_before Rn (job j) m)) \<noteq> None)
           \<and> (int k < retryCount j + 1 \<longrightarrow> fst (Rn (state_before Rn (job j) (k - 1))) = None)
           \<and> ((\<forall>x. fst (Rn x) \<noteq> None) \<longrightarrow> int k = retryCount j + 1)"
proof -
  have b: "add64 (retryCount j) 1 = retryCount j + 1"
    using assms by (subst add64_id) (simp_all add: MinDuration_def MaxDuration_def)
  from run_loop_spec[of Rn "retryCount j + 1" 0 "job j" 0] obtain k where
    k: "run_loop Rn (retryCount j + 1) 0 (job j) 0 = (0 + k, state_before Rn (job j) k)"
       "attempts_ok Rn (job j) (nat (retryCount j + 1 - 0)) k"
    by blast
  have kl: "k \<le> nat (retryCount j + 1)"
    using k(2) by (simp add: attempts_ok_def)
  have le: "int k \<le> retryCount j + 1"
    using kl assms by linarith
  have failed: "\<forall>m. Suc m < k \<longrightarrow> fst (Rn (state_before Rn (job j) m)) \<noteq> None"
    using k(2) by (simp add: attempts_ok_def)
  have last: "0 < k \<and> fst (Rn (state_before Rn (job j) (k - 1))) = None"
    if "int k < retryCount j + 1"
  proof -
    have "k < nat (retryCount j + 1)" using that by linarith
    then show ?thesis using k(2) by (simp add: attempts_ok_def)
  qed
  have one: "1 \<le> k"
  proof (cases "int k < retryCount j + 1")
    case True
    then show ?thesis using last by simp
  next
    case False
    then show ?thesis using le assms by simp
  qed
  have all: "int k = retryCount j + 1" if "\<forall>x. fst (Rn x) \<noteq> None"
  proof (rule ccontr)
    assume "int k \<noteq> retryCount j + 1"
    then have "int k < retryCount j + 1" using le by simp
    then show False using last that by blast
  qed
  show ?thesis
    using k(1) le failed last one all by (intro exI[of _ k]) (simp add: run_eq b)
qed

theorem run_retry_bound_witness:
  "fst (run failing_Run
          \<lparr>job = (), retryCount = 2,
           when_spec = \<lparr>LastRun = zero_Time, Each = [], Every = Some (Milliseconds (EveryN 100)),
                        On = NoDay, At = []\<rparr>,
           forever = True, timer = None\<rparr>) = 3"
proof -
  let ?j = "\<lparr>job = (), retryCount = 2,
           when_spec = \<lparr>LastRun = zero_Time, Each = [], Every = Some (Milliseconds (EveryN 100)),
                        On = NoDay, At = []\<rparr>,
           forever = True, timer = None\<rparr>"
  have a: "0 \<le> retryCount ?j" "retryCount ?j < 9223372036854775807" by simp_all
  have f: "\<forall>x. fst (failing_Run x) \<noteq> None" by (simp add: failing_Run_def)
  from run_retry_bound[OF a, of failing_Run] f
  have "int (fst (run failing_Run ?j)) = retryCount ?j + 1" by blast
  then show ?thesis by simp
qed

text \<open>
  Claim C6 as stated fails at the largest retry count: \<open>j.retryCount+1\<close> wraps to
  the least integer, the loop condition \<open>0 < bound\<close> is false at once, and a job
  that always fails is not called at all, where the claim has \<open>k + 1\<close> calls.
\<close>

theorem run_retry_count_wraps:
  "fst (run failing_Run
          \<lparr>job = (), retryCount = 9223372036854775807,
           when_spec = \<lparr>LastRun = zero_Time, Each = [], Every = Some (Milliseconds (EveryN 100)),
                        On = NoDay, At = []\<rparr>,
           forever = True, timer = None\<rparr>) = 0"
  by (simp add: run_eq add64_def wrap64_def run_loop_exit)

section \<open>Registration and the timer\<close>

lemma forever_after_run: "forever (after_run Rn now j) = forever j"
  by (simp add: after_run_def run_eq)

lemma timer_after_run: "timer (after_run Rn now j) = timer j"
  by (simp add: after_run_def run_eq)

lemma run_invokes:
  assumes "0 \<le> retryCount j" "retryCount j < 9223372036854775807"
  shows "\<exists>k. 1 \<le> k \<and> int k \<le> retryCount j + 1 \<and> fst (run Rn j) = k
           \<and> snd (run Rn j) = j\<lparr>job := state_before Rn (job j) k\<rparr>"
proof -
  have b: "add64 (retryCount j) 1 = retryCount j + 1"
    using assms by (subst add64_id) (simp_all add: MinDuration_def MaxDuration_def)
  from run_loop_spec[of Rn "retryCount j + 1" 0 "job j" 0] obtain k where
    k: "run_loop Rn (retryCount j + 1) 0 (job j) 0 = (0 + k, state_before Rn (job j) k)"
       "attempts_ok Rn (job j) (nat (retryCount j + 1 - 0)) k"
    by blast
  have kl: "k \<le> nat (retryCount j + 1)"
    using k(2) by (simp add: attempts_ok_def)
  have le: "int k \<le> retryCount j + 1" using kl assms by linarith
  have one: "1 \<le> k"
  proof (cases "k < nat (retryCount j + 1)")
    case True
    then show ?thesis using k(2) by (simp add: attempts_ok_def)
  next
    case False
    then show ?thesis using kl assms by linarith
  qed
  show ?thesis
    using k(1) le one by (intro exI[of _ k]) (simp add: run_eq b)
qed

lemma schedule_arms:
  assumes "\<not> IsZero (LastRun (when_spec j))"
  shows "schedule pd False ck j c =
           (case Next pd (when_spec j) (LastRun (when_spec j)) ck of
              None \<Rightarrow> None
            | Some dur \<Rightarrow> Some (Returned (j\<lparr>timer := Some (Timer dur False)\<rparr>, c)))"
  using assms by (simp add: schedule_def Let_def split: option.splits)

lemma ScheduleWithOpts_entry:
  assumes "ScheduleWithOpts pd name jb (Some op) now clock s = Some (Returned (None, s'))"
  shows "\<exists>j w. jobs s' name = Some j \<and> When op = Some w \<and> job j = jb
           \<and> retryCount j = RetryCount op \<and> forever j = (Every w \<noteq> None)"
proof -
  from assms obtain w where w: "When op = Some w" "jobs s name = None" "Duration pd w now \<noteq> 0"
    by (auto simp: ScheduleWithOpts_def split: if_splits option.splits)
  let ?j = "\<lparr>job = jb, retryCount = RetryCount op, when_spec = w,
             forever = (Every w \<noteq> None), timer = None\<rparr>"
  show ?thesis
  proof (cases "started s")
    case False
    with assms w have "s' = s\<lparr>jobs := (jobs s)(name \<mapsto> ?j)\<rparr>"
      by (simp add: ScheduleWithOpts_def Let_def)
    with w show ?thesis by simp
  next
    case True
    with assms w obtain j' c where
      sc: "schedule pd False clock ?j (wg s + 1) = Some (Returned (j', c))"
      and s': "s' = s\<lparr>jobs := (jobs s)(name \<mapsto> j'), wg := c\<rparr>"
      by (auto simp: ScheduleWithOpts_def Let_def split: option.splits outcome.splits)
    from sc have "forever j' = forever ?j \<and> job j' = job ?j \<and> retryCount j' = retryCount ?j"
      by (auto simp: schedule_def Let_def split: option.splits if_splits)
    with s' w show ?thesis by simp
  qed
qed

text \<open>
  Claim C7. After a successful registration the entry under the name holds the job and
  the retry count that were passed, and its \<open>forever\<close> is true exactly when
  \<open>Every\<close> of the \<open>When\<close> was set. The timer's function first runs the job: with a
  retry count in range, \<open>Run\<close> is called at least once, and the entry goes on with the
  job's state after those calls and with \<open>LastRun\<close> at the clock reading. Then, when
  \<open>forever\<close> is true, it goes into \<open>schedule\<close>; with no cancellation waiting this
  arms a new timer, whose delay is what \<open>Next\<close> gives from the new \<open>LastRun\<close>, and
  leaves the wait group's counter alone. When \<open>forever\<close> is false, so for a
  \<open>When\<close> with only \<open>Each\<close> or \<open>At\<close> and \<open>On\<close>, it marks the entry done: the
  counter goes down by one and the timer is the one that fired; no timer is armed.
\<close>

theorem registered_forever_iff_Every:
  assumes "ScheduleWithOpts pd name jb (Some op) now clock s = Some (Returned (None, s'))"
  shows "\<exists>j w. jobs s' name = Some j \<and> When op = Some w
           \<and> job j = jb \<and> retryCount j = RetryCount op
           \<and> (forever j \<longleftrightarrow> Every w \<noteq> None)
           \<and> (\<forall>Rn. 0 \<le> RetryCount op \<and> RetryCount op < 9223372036854775807 \<longrightarrow>
                 (\<exists>k. 1 \<le> k \<and> int k \<le> RetryCount op + 1 \<and> fst (run Rn j) = k
                      \<and> snd (run Rn j) = j\<lparr>job := state_before Rn jb k\<rparr>))
           \<and> (\<forall>Rn t b ck c. forever j \<longrightarrow>
                 callback pd Rn t b ck j c
                   = schedule pd b ck ((snd (run Rn j))\<lparr>when_spec := (when_spec j)\<lparr>LastRun := t\<rparr>\<rparr>) c)
           \<and> (\<forall>Rn t ck c. forever j \<and> \<not> IsZero t \<longrightarrow>
                 callback pd Rn t False ck j c
                   = (case Next pd ((when_spec j)\<lparr>LastRun := t\<rparr>) t ck of
                        None \<Rightarrow> None
                      | Some dur \<Rightarrow>
                          Some (Returned
                            ((snd (run Rn j))\<lparr>when_spec := (when_spec j)\<lparr>LastRun := t\<rparr>,
                                               timer := Some (Timer dur False)\<rparr>, c))))
           \<and> (\<forall>Rn t b ck c. \<not> forever j \<and> 0 < c \<longrightarrow>
                 callback pd Rn t b ck j c
                   = Some (Returned
                       ((snd (run Rn j))\<lparr>when_spec := (when_spec j)\<lparr>LastRun := t\<rparr>\<rparr>, c - 1))
                 \<and> timer (snd (run Rn j)) = timer j)"
proof -
  from ScheduleWithOpts_entry[OF assms] obtain j w where
    jw: "jobs s' name = Some j" "When op = Some w" "job j = jb"
        "retryCount j = RetryCount op" "forever j = (Every w \<noteq> None)"
    by blast
  have ran: "\<exists>k. 1 \<le> k \<and> int k \<le> RetryCount op + 1 \<and> fst (run Rn j) = k
               \<and> snd (run Rn j) = j\<lparr>job := state_before Rn jb k\<rparr>"
    if "0 \<le> RetryCount op \<and> RetryCount op < 9223372036854775807"
    for Rn :: "'a \<Rightarrow> error option \<times> 'a"
    using run_invokes[of j Rn] that jw(3,4) by simp
  have re: "callback pd Rn t b ck j c
              = schedule pd b ck ((snd (run Rn j))\<lparr>when_spec := (when_spec j)\<lparr>LastRun := t\<rparr>\<rparr>) c"
    if "forever j" for Rn :: "'a \<Rightarrow> error option \<times> 'a" and t b ck c
    using that by (simp add: callback_def forever_after_run) (simp add: after_run_def)
  have arm: "callback pd Rn t False ck j c
               = (case Next pd ((when_spec j)\<lparr>LastRun := t\<rparr>) t ck of
                    None \<Rightarrow> None
                  | Some dur \<Rightarrow>
                      Some (Returned
                        ((snd (run Rn j))\<lparr>when_spec := (when_spec j)\<lparr>LastRun := t\<rparr>,
                                           timer := Some (Timer dur False)\<rparr>, c)))"
    if "forever j \<and> \<not> IsZero t" for Rn :: "'a \<Rightarrow> error option \<times> 'a" and t ck c
  proof -
    let ?j = "(snd (run Rn j))\<lparr>when_spec := (when_spec j)\<lparr>LastRun := t\<rparr>\<rparr>"
    have z: "\<not> IsZero (LastRun (when_spec ?j))" using that by simp
    show ?thesis
      using that by (simp add: re schedule_arms[OF z] split: option.splits)
  qed
  have dn: "callback pd Rn t b ck j c
              = Some (Returned
                  ((snd (run Rn j))\<lparr>when_spec := (when_spec j)\<lparr>LastRun := t\<rparr>\<rparr>, c - 1))
            \<and> timer (snd (run Rn j)) = timer j"
    if "\<not> forever j \<and> 0 < c" for Rn :: "'a \<Rightarrow> error option \<times> 'a" and t b ck c
    using that by (simp add: callback_def forever_after_run done_job_def)
                  (simp add: after_run_def run_eq)
  show ?thesis
    apply (rule exI[of _ j], rule exI[of _ w])
    apply (intro conjI)
            apply (rule jw(1))
           apply (rule jw(2))
          apply (rule jw(3))
         apply (rule jw(4))
        apply (simp add: jw(5))
       apply (intro allI impI, erule ran)
      apply (intro allI impI, erule re)
     apply (intro allI impI, erule arm)
    apply (intro allI impI, erule dn)
    done
qed

lemma FindSubmatch_any_hour_15: "FindSubmatch ''**:15'' = Some (''**'', ''15'')"
  by (simp add: in_class_def is_digit_def)

lemma Next_100ms_at_anchor:
  "Next pd \<lparr>LastRun = l, Each = [], Every = Some (Milliseconds (EveryN 100)), On = d, At = a\<rparr>
     5000 (frozen_clock 5000) = Some 100000000"
proof -
  have D: "\<And>t. Duration pd \<lparr>LastRun = l, Each = [], Every = Some (Milliseconds (EveryN 100)),
                              On = d, At = a\<rparr> t = 100000000"
    by (simp add: Duration_def Milliseconds_def EveryN_def mul64_def wrap64_def Millisecond_def)
  have "Sub (Add 5000 100000000) 5000 = 100000000"
    by (simp add: Sub_def Add_def MinDuration_def MaxDuration_def)
  then show ?thesis
    unfolding Next_def D by (subst Next_loop.simps) (simp add: frozen_clock_def)
qed

theorem registered_forever_iff_Every_witness:
  "callback ParseDuration_5s counting_Run 5000 False (frozen_clock 5000)
      \<lparr>job = 0, retryCount = 0,
       when_spec = \<lparr>LastRun = zero_Time, Each = [], Every = Some (Milliseconds (EveryN 100)),
                    On = NoDay, At = []\<rparr>,
       forever = True, timer = None\<rparr> 1
     = Some (Returned
         (\<lparr>job = 1, retryCount = 0,
           when_spec = \<lparr>LastRun = 5000, Each = [], Every = Some (Milliseconds (EveryN 100)),
                        On = NoDay, At = []\<rparr>,
           forever = True, timer = Some (Timer 100000000 False)\<rparr>, 1))
   \<and> callback ParseDuration_5s counting_Run 5000 False (frozen_clock 5000)
      \<lparr>job = 0, retryCount = 0,
       when_spec = \<lparr>LastRun = zero_Time, Each = [], Every = None, On = NoDay, At = ''**:15''\<rparr>,
       forever = False, timer = None\<rparr> 1
     = Some (Returned
         (\<lparr>job = 1, retryCount = 0,
           when_spec = \<lparr>LastRun = 5000, Each = [], Every = None, On = NoDay, At = ''**:15''\<rparr>,
           forever = False, timer = None\<rparr>, 0))"
proof -
  let ?s = "\<lparr>jobs = Map.empty, started = False, wg = 0\<rparr> :: nat Scheduler"
  have z: "\<not> IsZero 5000" by (simp add: IsZero_def zero_Time_def)
  have st: "state_before counting_Run 0 k = k" for k
    by (induction k) (simp_all add: state_before_def counting_Run_def)
  \<comment> \<open>the recurring job\<close>
  let ?w = "\<lparr>LastRun = zero_Time, Each = [], Every = Some (Milliseconds (EveryN 100)),
             On = NoDay, At = []\<rparr>"
  let ?op = "\<lparr>When = Some ?w, RetryCount = 0, Timeout = 0\<rparr>"
  let ?j = "\<lparr>job = 0 :: nat, retryCount = 0, when_spec = ?w, forever = True, timer = None\<rparr>"
  have D: "Duration ParseDuration_5s ?w 0 \<noteq> 0"
    by (simp add: Duration_def Milliseconds_def EveryN_def mul64_def wrap64_def Millisecond_def)
  have reg: "ScheduleWithOpts ParseDuration_5s ''hi'' (0 :: nat) (Some ?op) 0 (frozen_clock 0) ?s
               = Some (Returned (None, \<lparr>jobs = [''hi'' \<mapsto> ?j], started = False, wg = 0\<rparr>))"
    using D by (simp add: ScheduleWithOpts_def)
  from registered_forever_iff_Every[OF reg] obtain j w where
    j: "jobs \<lparr>jobs = [''hi'' \<mapsto> ?j], started = False, wg = 0\<rparr> ''hi'' = Some j"
    and ran: "\<forall>Rn. 0 \<le> RetryCount ?op \<and> RetryCount ?op < 9223372036854775807 \<longrightarrow>
                 (\<exists>k. 1 \<le> k \<and> int k \<le> RetryCount ?op + 1 \<and> fst (run Rn j) = k
                      \<and> snd (run Rn j) = j\<lparr>job := state_before Rn 0 k\<rparr>)"
    and arm: "\<forall>Rn t ck c. forever j \<and> \<not> IsZero t \<longrightarrow>
                 callback ParseDuration_5s Rn t False ck j c
                   = (case Next ParseDuration_5s ((when_spec j)\<lparr>LastRun := t\<rparr>) t ck of
                        None \<Rightarrow> None
                      | Some dur \<Rightarrow>
                          Some (Returned
                            ((snd (run Rn j))\<lparr>when_spec := (when_spec j)\<lparr>LastRun := t\<rparr>,
                                               timer := Some (Timer dur False)\<rparr>, c)))"
    by (elim exE conjE) (rule that)
  from j have j: "j = ?j" by simp
  from ran[rule_format, of counting_Run] obtain k where
    "1 \<le> k" "int k \<le> 1" "snd (run counting_Run j) = j\<lparr>job := state_before counting_Run 0 k\<rparr>"
    by auto
  then have r1: "snd (run counting_Run ?j) = ?j\<lparr>job := 1\<rparr>"
    unfolding j st by (cases "k = 1") simp_all
  have c1: "callback ParseDuration_5s counting_Run 5000 False (frozen_clock 5000) ?j 1
              = Some (Returned (?j\<lparr>job := 1, when_spec := ?w\<lparr>LastRun := 5000\<rparr>,
                                  timer := Some (Timer 100000000 False)\<rparr>, 1))"
    using arm[rule_format, of 5000 counting_Run "frozen_clock 5000" 1] z
    unfolding j r1 by (simp add: Next_100ms_at_anchor)
  \<comment> \<open>the job that runs once\<close>
  let ?w2 = "\<lparr>LastRun = zero_Time, Each = [], Every = None, On = NoDay, At = ''**:15''\<rparr>"
  let ?op2 = "\<lparr>When = Some ?w2, RetryCount = 0, Timeout = 0\<rparr>"
  let ?j2 = "\<lparr>job = 0 :: nat, retryCount = 0, when_spec = ?w2, forever = False, timer = None\<rparr>"
  have "nextAtMatch 0 ''**:15'' = 15 * Minute"
    by (simp add: nextAtMatch_closed[OF FindSubmatch_any_hour_15] hour_delta_def minute_delta_def
        pattern_number_def is_digit_def digit_val_def Time_Minute_def Minute_def)
  then have D2: "Duration ParseDuration_5s ?w2 0 \<noteq> 0"
    by (simp add: Duration_def nextDayAndAtMatch_def Minute_def)
  have reg2: "ScheduleWithOpts ParseDuration_5s ''print'' (0 :: nat) (Some ?op2) 0 (frozen_clock 0) ?s
               = Some (Returned (None, \<lparr>jobs = [''print'' \<mapsto> ?j2], started = False, wg = 0\<rparr>))"
    using D2 by (simp add: ScheduleWithOpts_def)
  from registered_forever_iff_Every[OF reg2] obtain j2 w2 where
    j2: "jobs \<lparr>jobs = [''print'' \<mapsto> ?j2], started = False, wg = 0\<rparr> ''print'' = Some j2"
    and ran2: "\<forall>Rn. 0 \<le> RetryCount ?op2 \<and> RetryCount ?op2 < 9223372036854775807 \<longrightarrow>
                 (\<exists>k. 1 \<le> k \<and> int k \<le> RetryCount ?op2 + 1 \<and> fst (run Rn j2) = k
                      \<and> snd (run Rn j2) = j2\<lparr>job := state_before Rn 0 k\<rparr>)"
    and dn: "\<forall>Rn t b ck c. \<not> forever j2 \<and> 0 < c \<longrightarrow>
                 callback ParseDuration_5s Rn t b ck j2 c
                   = Some (Returned
                       ((snd (run Rn j2))\<lparr>when_spec := (when_spec j2)\<lparr>LastRun := t\<rparr>\<rparr>, c - 1))
                 \<and> timer (snd (run Rn j2)) = timer j2"
    by (elim exE conjE) (rule that)
  from j2 have j2: "j2 = ?j2" by simp
  from ran2[rule_format, of counting_Run] obtain k2 where
    "1 \<le> k2" "int k2 \<le> 1" "snd (run counting_Run j2) = j2\<lparr>job := state_before counting_Run 0 k2\<rparr>"
    by auto
  then have r2: "snd (run counting_Run ?j2) = ?j2\<lparr>job := 1\<rparr>"
    unfolding j2 st by (cases "k2 = 1") simp_all
  have c2: "callback ParseDuration_5s counting_Run 5000 False (frozen_clock 5000) ?j2 1
              = Some (Returned (?j2\<lparr>job := 1, when_spec := ?w2\<lparr>LastRun := 5000\<rparr>\<rparr>, 0))"
    using dn[rule_format, of 1 counting_Run 5000 False "frozen_clock 5000"]
    unfolding j2 r2 by simp
  from c1 c2 show ?thesis by simp
qed

lemma interval_at_wrapped_min:
  "interval_at pd \<lparr>LastRun = l, Each = [], Every = Some (Milliseconds (EveryN 144115188075855872)),
                  On = d, At = a\<rparr> start k \<in> {MinDuration, 0}"
  by (induction k) (auto simp: Duration_wrapped_min add64_def wrap64_def MinDuration_def)

text \<open>
  Claim C9. There is a \<open>When\<close> that registration accepts, namely
  \<open>Every(2^57).Milliseconds()\<close>, whose duration wraps to the least \<open>Duration\<close> and
  so is not zero: registration under a fresh name never returns an error for it and,
  on a scheduler not yet started, stores the entry. Every interval of the loop of
  \<open>Next\<close> is non-positive, and \<open>Next\<close> never returns whenever the anchor is not
  after any reading of the clock.
\<close>

theorem Next_never_returns_for_accepted_spec:
  "\<exists>w. Each w = [] \<and> Every w = Some (Milliseconds (EveryN 144115188075855872))
       \<and> (\<forall>now. Duration pd w now \<noteq> 0)
       \<and> (\<forall>name (jb :: 'j) op now clock s e s'. jobs s name = None \<and> When op = Some w \<longrightarrow>
             ScheduleWithOpts pd name jb (Some op) now clock s \<noteq> Some (Returned (Some e, s')))
       \<and> (\<forall>name (jb :: 'j) op now clock s.
             jobs s name = None \<and> When op = Some w \<and> \<not> started s \<longrightarrow>
             (\<exists>s'. ScheduleWithOpts pd name jb (Some op) now clock s = Some (Returned (None, s'))
                   \<and> jobs s' name \<noteq> None))
       \<and> (\<forall>anchor k. interval_at pd w anchor k \<le> 0)
       \<and> (\<forall>anchor clock. (\<forall>i. anchor \<le> clock i) \<longrightarrow> Next pd w anchor clock = None)"
proof -
  let ?w = "\<lparr>LastRun = zero_Time, Each = [], Every = Some (Milliseconds (EveryN 144115188075855872)),
             On = NoDay, At = []\<rparr>"
  have D: "Duration pd ?w now \<noteq> 0" for now
    by (simp add: Duration_wrapped_min MinDuration_def)
  have a: "ScheduleWithOpts pd name jb (Some op) now clock s \<noteq> Some (Returned (Some e, s'))"
    if "jobs s name = None" "When op = Some ?w"
    for name and jb :: 'j and op now clock s e s'
    using that D by (intro ScheduleWithOpts_accepted) simp_all
  have b: "\<exists>s'. ScheduleWithOpts pd name jb (Some op) now clock s = Some (Returned (None, s'))
                \<and> jobs s' name \<noteq> None"
    if "jobs s name = None" "When op = Some ?w" "\<not> started s"
    for name and jb :: 'j and op now clock s
    using that D by (simp add: ScheduleWithOpts_def Let_def)
  have c: "interval_at pd ?w anchor k \<le> 0" for anchor k
    using interval_at_wrapped_min[of pd zero_Time NoDay "[]" anchor k]
    by (auto simp: MinDuration_def)
  have d: "Next pd ?w anchor clock = None" if "\<forall>i. anchor \<le> clock i" for anchor clock
    using that by (intro Next_wrapped_min_never_returns) simp
  show ?thesis
    apply (rule exI[of _ ?w])
    using D a b c d by simp
qed

theorem Next_never_returns_for_accepted_spec_witness:
  "\<exists>w. Duration ParseDuration_5s w 2000 \<noteq> 0 \<and> interval_at ParseDuration_5s w 1000 3 \<le> 0
       \<and> Next ParseDuration_5s w 1000 (frozen_clock 2000) = None"
proof -
  from Next_never_returns_for_accepted_spec[of ParseDuration_5s, where 'j = unit] obtain w where
    w: "\<forall>now. Duration ParseDuration_5s w now \<noteq> 0"
       "\<forall>anchor k. interval_at ParseDuration_5s w anchor k \<le> 0"
       "\<forall>anchor clock. (\<forall>i. anchor \<le> clock i) \<longrightarrow> Next ParseDuration_5s w anchor clock = None"
    by blast
  have "\<forall>i. (1000::int) \<le> frozen_clock 2000 i" by (simp add: frozen_clock_def)
  with w(3) have "Next ParseDuration_5s w 1000 (frozen_clock 2000) = None" by blast
  with w(1,2) show ?thesis by blast
qed

end
